theory Spec2Isabelle
  imports Complex_Main "HOL-Library.Multiset"
begin

section \<open>Terrain mesh and hydrology of TerrainGenerator.py\<close>

text \<open>
  The mesh of \<^verbatim>\<open>TerrainGenerator.py\<close> is a graph of Python objects that refer to
  each other (a Vertex holds its neighbouring Vertex objects, a Ridge holds its two end
  Vertex objects, a Patch holds its bounding Vertex objects). The embedding keeps the
  objects in three stores, one per class, and every reference is the address of the object
  in its store. A World holds the three stores together with the containers of the source:
  the list \<^verbatim>\<open>vertices\<close> and the dictionaries \<^verbatim>\<open>ridges\<close> and
  \<^verbatim>\<open>patches\<close> (their keys in insertion order; a key is the name of its object,
  which is also the address).

  Heights, fluxes and coordinates are floating point numbers in the source. They are
  modelled as real numbers: rounding and overflow are outside the model. What the model
  keeps of floating point are the values that are not finite: the result of numpy's
  division by zero is \<open>NaN\<close> or an infinity, carried by the type \<open>npfloat\<close>.
\<close>

subsection \<open>Numbers of numpy that may not be finite\<close>

datatype npfloat = Fin real | PInf | NInf | NaN

fun np_neg :: "npfloat \<Rightarrow> npfloat" where
  "np_neg (Fin a) = Fin (- a)"
| "np_neg PInf = NInf"
| "np_neg NInf = PInf"
| "np_neg NaN = NaN"

definition signed_inf :: "real \<Rightarrow> npfloat \<Rightarrow> npfloat" where
  \<comment> \<open>an infinity times a finite number: zero times infinity is not a number\<close>
  "signed_inf a x = (if 0 < a then x else if a < 0 then np_neg x else NaN)"

fun np_mul :: "npfloat \<Rightarrow> npfloat \<Rightarrow> npfloat" where
  "np_mul (Fin a) (Fin b) = Fin (a * b)"
| "np_mul NaN y = NaN"
| "np_mul x NaN = NaN"
| "np_mul (Fin a) y = signed_inf a y"
| "np_mul x (Fin b) = signed_inf b x"
| "np_mul PInf y = y"
| "np_mul NInf y = np_neg y"

fun np_add :: "npfloat \<Rightarrow> npfloat \<Rightarrow> npfloat" where
  "np_add (Fin a) (Fin b) = Fin (a + b)"
| "np_add NaN y = NaN"
| "np_add x NaN = NaN"
| "np_add (Fin a) y = y"
| "np_add x (Fin b) = x"
| "np_add PInf PInf = PInf"
| "np_add NInf NInf = NInf"
| "np_add PInf NInf = NaN"
| "np_add NInf PInf = NaN"

definition np_sub :: "npfloat \<Rightarrow> npfloat \<Rightarrow> npfloat" where
  "np_sub x y = np_add x (np_neg y)"

fun np_div :: "npfloat \<Rightarrow> npfloat \<Rightarrow> npfloat" where
  "np_div (Fin a) (Fin b) =
     (if b \<noteq> 0 then Fin (a / b)
      else if a = 0 then NaN else if 0 < a then PInf else NInf)"
| "np_div NaN y = NaN"
| "np_div x NaN = NaN"
| "np_div (Fin a) y = Fin 0"
| "np_div x (Fin b) = (if 0 \<le> b then x else np_neg x)"
| "np_div x y = NaN"

fun np_sqrt :: "npfloat \<Rightarrow> npfloat" where
  "np_sqrt (Fin a) = (if a < 0 then NaN else Fin (sqrt a))"
| "np_sqrt PInf = PInf"
| "np_sqrt NInf = NaN"
| "np_sqrt NaN = NaN"

fun np_less :: "npfloat \<Rightarrow> npfloat \<Rightarrow> bool" where
  "np_less (Fin a) (Fin b) = (a < b)"
| "np_less NaN y = False"
| "np_less x NaN = False"
| "np_less x NInf = False"
| "np_less PInf y = False"
| "np_less x y = True"

definition py_min2 :: "npfloat \<Rightarrow> npfloat \<Rightarrow> npfloat" where
  \<comment> \<open>Python's \<^verbatim>\<open>min(a, b)\<close>: the first argument unless the second is smaller\<close>
  "py_min2 a b = (if np_less b a then b else a)"

subsection \<open>Errors\<close>

datatype error = ValueError | IndexError | KeyError | ZeroDivisionError | NonFinite

text \<open>
  \<open>NonFinite\<close> is not an exception of the source: it marks that an operation would store
  a height that is \<open>NaN\<close> or infinite, which the stores of the model (real numbers)
  cannot hold. The source goes on with that value.
\<close>

fun fold_err :: "('s \<Rightarrow> 'a \<Rightarrow> error + 's) \<Rightarrow> 'a list \<Rightarrow> 's \<Rightarrow> error + 's" where
  "fold_err f [] s = Inr s"
| "fold_err f (x # xs) s = (case f s x of Inl e \<Rightarrow> Inl e | Inr s' \<Rightarrow> fold_err f xs s')"

subsection \<open>The classes Vertex, Ridge, Patch and World\<close>

type_synonym point = "real \<times> real"

record vertex =
  v_name :: nat
  v_coords :: point
  v_neighbors :: "nat list"
  v_patches :: "nat list"
  v_ridges :: "nat \<rightharpoonup> nat"
  v_height :: real
  v_flux :: real

record ridge =
  r_name :: nat
  end_1 :: nat
  end_2 :: nat
  r_patches :: "nat list"
  r_flux :: real

record patch =
  p_name :: nat
  p_vertices :: "nat list"
  p_neighbors :: "(nat \<times> nat) list"
  centroid :: point
  h_memo :: "real option"
  slope_memo :: "npfloat option"

record digraph =
  nodes :: "nat list"
  edges :: "((nat \<times> nat) \<times> real) list"

record world =
  vertices :: "nat list"
  ridges :: "nat list"
  patches :: "nat list"
  vheap :: "nat \<Rightarrow> vertex"
  rheap :: "nat \<Rightarrow> ridge"
  pheap :: "nat \<Rightarrow> patch"
  cached_land_patches :: "nat list"
  cached_patch_network :: "digraph option"
  x_lim :: "real \<times> real"
  y_lim :: "real \<times> real"
  sea_level :: real

text \<open>
  \<open>v_neighbors\<close>, \<open>v_patches\<close> and \<open>r_patches\<close> are Python sets of objects: lists
  without repetition here, in the order in which the set is iterated. \<open>v_ridges\<close> is the
  dictionary from the name of a neighbour to the ridge. \<open>p_neighbors\<close> is the dictionary
  from a ridge to the patch across it, in insertion order. \<open>h_memo\<close> and \<open>slope_memo\<close>
  are the attributes \<^verbatim>\<open>_h\<close> and \<^verbatim>\<open>_slope\<close>, \<open>cached_land_patches\<close> and
  \<open>cached_patch_network\<close> the attributes \<^verbatim>\<open>_land_patches\<close> and
  \<^verbatim>\<open>_patch_network\<close>.
\<close>

definition height_of :: "world \<Rightarrow> nat \<Rightarrow> real" where
  "height_of w v = v_height (vheap w v)"

definition flux_of :: "world \<Rightarrow> nat \<Rightarrow> real" where
  "flux_of w v = v_flux (vheap w v)"

definition set_height :: "nat \<Rightarrow> real \<Rightarrow> world \<Rightarrow> world" where
  "set_height v h w = w\<lparr>vheap := (vheap w)(v := (vheap w v)\<lparr>v_height := h\<rparr>)\<rparr>"

definition set_flux :: "nat \<Rightarrow> real \<Rightarrow> world \<Rightarrow> world" where
  "set_flux v f w = w\<lparr>vheap := (vheap w)(v := (vheap w v)\<lparr>v_flux := f\<rparr>)\<rparr>"

definition set_ridge_flux :: "nat \<Rightarrow> real \<Rightarrow> world \<Rightarrow> world" where
  "set_ridge_flux r f w = w\<lparr>rheap := (rheap w)(r := (rheap w r)\<lparr>r_flux := f\<rparr>)\<rparr>"

subsection \<open>Vertex.dist, Ridge.length, Ridge.slope\<close>

definition dist_pt :: "point \<Rightarrow> point \<Rightarrow> real" where
  \<comment> \<open>\<^verbatim>\<open>np.linalg.norm(self.coords - other)\<close>\<close>
  "dist_pt a b = sqrt ((fst a - fst b)\<^sup>2 + (snd a - snd b)\<^sup>2)"

definition ridge_length :: "world \<Rightarrow> nat \<Rightarrow> real" where
  "ridge_length w r =
     dist_pt (v_coords (vheap w (end_1 (rheap w r)))) (v_coords (vheap w (end_2 (rheap w r))))"

definition ridge_slope :: "world \<Rightarrow> nat \<Rightarrow> npfloat" where
  "ridge_slope w r =
     (let delta_h = \<bar>height_of w (end_1 (rheap w r)) - height_of w (end_2 (rheap w r))\<bar>
      in np_div (Fin delta_h) (Fin (ridge_length w r)))"

subsection \<open>World.erode_heights\<close>

definition low_end :: "world \<Rightarrow> nat \<Rightarrow> nat" where
  \<comment> \<open>\<^verbatim>\<open>min([ridge.end_1, ridge.end_2], key=lambda x: x.height)\<close>: the first on a tie\<close>
  "low_end w r =
     (if height_of w (end_2 (rheap w r)) < height_of w (end_1 (rheap w r))
      then end_2 (rheap w r) else end_1 (rheap w r))"

definition erode_total :: "real \<Rightarrow> world \<Rightarrow> nat \<Rightarrow> npfloat" where
  "erode_total max_total w r =
     (let river = np_mul (np_sqrt (Fin (r_flux (rheap w r)))) (ridge_slope w r);
          creep = np_mul (ridge_slope w r) (ridge_slope w r);
          total = np_add (np_mul (Fin 1000) river) creep
      in py_min2 total (Fin max_total))"

definition erode_ridge :: "real \<Rightarrow> world \<Rightarrow> nat \<Rightarrow> error + world" where
  "erode_ridge max_total w r =
     (if r_flux (rheap w r) = 0 then Inr w
      else
        let total = erode_total max_total w r;
            low_v = low_end w r
        in case np_sub (Fin (height_of w low_v))
                  (np_div (np_mul (Fin (1 / 10)) total) (Fin 500)) of
             Fin h \<Rightarrow> Inr (set_height low_v h w)
           | _ \<Rightarrow> Inl NonFinite)"

definition erode_heights :: "world \<Rightarrow> real \<Rightarrow> real \<Rightarrow> error + world" where
  "erode_heights w max_total drop_factor = fold_err (erode_ridge max_total) (ridges w) w"

subsection \<open>Python containers\<close>

definition py_index :: "'a list \<Rightarrow> int \<Rightarrow> error + 'a" where
  \<comment> \<open>\<^verbatim>\<open>xs[i]\<close>: an index from \<open>-len(xs)\<close> up to \<open>-1\<close> counts from the end, an
      index outside \<open>-len(xs) .. len(xs) - 1\<close> raises\<close>
  "py_index xs i =
     (if 0 \<le> i \<and> i < int (length xs) then Inr (xs ! nat i)
      else if i < 0 \<and> - int (length xs) \<le> i then Inr (xs ! nat (int (length xs) + i))
      else Inl IndexError)"

fun py_index_all :: "'a list \<Rightarrow> int list \<Rightarrow> error + 'a list" where
  \<comment> \<open>\<^verbatim>\<open>[xs[i] for i in is]\<close>\<close>
  "py_index_all xs [] = Inr []"
| "py_index_all xs (i # is) =
     (case py_index xs i of
        Inl e \<Rightarrow> Inl e
      | Inr x \<Rightarrow> (case py_index_all xs is of Inl e \<Rightarrow> Inl e | Inr ys \<Rightarrow> Inr (x # ys)))"

definition set_add :: "'a \<Rightarrow> 'a list \<Rightarrow> 'a list" where
  \<comment> \<open>\<^verbatim>\<open>s.add(x)\<close> on a set kept as a list without repetition\<close>
  "set_add x xs = (if x \<in> set xs then xs else xs @ [x])"

fun dict_set :: "'k \<Rightarrow> 'v \<Rightarrow> ('k \<times> 'v) list \<Rightarrow> ('k \<times> 'v) list" where
  \<comment> \<open>\<^verbatim>\<open>d[k] = v\<close> on a dictionary kept in insertion order\<close>
  "dict_set k v [] = [(k, v)]"
| "dict_set k v ((k', v') # kvs) =
     (if k' = k then (k, v) # kvs else (k', v') # dict_set k v kvs)"

subsection \<open>Construction: Vertex, Ridge, Patch, World.__init__\<close>

text \<open>
  \<^verbatim>\<open>World.__init__\<close> calls scipy's \<^verbatim>\<open>Voronoi(points)\<close> and reads three attributes of
  the result: the coordinates of the Voronoi vertices, the pairs of vertex indices of the
  ridges, and the lists of vertex indices of the regions; the index \<open>-1\<close> stands for the
  point at infinity. scipy is not part of the repository: the tessellation is the input
  of the model.
\<close>

record tessellation =
  vor_vertices :: "point list"
  ridge_vertices :: "(int \<times> int) list"
  regions :: "int list list"

definition Vertex_init :: "nat \<Rightarrow> point \<Rightarrow> vertex" where
  "Vertex_init name coords =
     \<lparr>v_name = name, v_coords = coords, v_neighbors = [], v_patches = [],
      v_ridges = Map.empty, v_height = 0, v_flux = 1\<rparr>"

definition add_neighbor :: "nat \<Rightarrow> nat \<Rightarrow> nat \<Rightarrow> world \<Rightarrow> world" where
  \<comment> \<open>\<^verbatim>\<open>self.add_neighbor(neighbor, ridge)\<close>\<close>
  "add_neighbor self neighbor rdg w =
     w\<lparr>vheap := (vheap w)(self := (vheap w self)
          \<lparr>v_neighbors := set_add neighbor (v_neighbors (vheap w self)),
           v_ridges := (v_ridges (vheap w self))(v_name (vheap w neighbor) \<mapsto> rdg)\<rparr>)\<rparr>"

definition Ridge_init :: "nat \<Rightarrow> nat \<Rightarrow> nat \<Rightarrow> world \<Rightarrow> world" where
  \<comment> \<open>the new Ridge object is stored at the address \<open>name\<close>\<close>
  "Ridge_init name e1 e2 w =
     (let w1 = w\<lparr>rheap := (rheap w)(name :=
                  \<lparr>r_name = name, end_1 = e1, end_2 = e2, r_patches = [], r_flux = 0\<rparr>)\<rparr>;
          w2 = add_neighbor e1 e2 name w1
      in add_neighbor e2 e1 name w2)"

definition find_centroid :: "point list \<Rightarrow> error + point" where
  "find_centroid points =
     (if length points = 0 then Inl ZeroDivisionError
      else Inr (sum_list (map fst points) / real (length points),
                sum_list (map snd points) / real (length points)))"

definition add_patch_to_vertex :: "nat \<Rightarrow> world \<Rightarrow> nat \<Rightarrow> world" where
  \<comment> \<open>\<^verbatim>\<open>vertex.patches.add(self)\<close>\<close>
  "add_patch_to_vertex p w v =
     w\<lparr>vheap := (vheap w)(v := (vheap w v)\<lparr>v_patches := set_add p (v_patches (vheap w v))\<rparr>)\<rparr>"

definition Patch_init :: "nat \<Rightarrow> nat list \<Rightarrow> world \<Rightarrow> error + world" where
  \<comment> \<open>the new Patch object is stored at the address \<open>name\<close>\<close>
  "Patch_init name vs w =
     (let w1 = fold (\<lambda>v w'. add_patch_to_vertex name w' v) vs w
      in case find_centroid (map (\<lambda>v. v_coords (vheap w1 v)) vs) of
           Inl e \<Rightarrow> Inl e
         | Inr c \<Rightarrow>
             Inr (w1\<lparr>pheap := (pheap w1)(name :=
                    \<lparr>p_name = name, p_vertices = vs, p_neighbors = [], centroid = c,
                     h_memo = None, slope_memo = None\<rparr>)\<rparr>))"

definition make_vertex :: "world \<Rightarrow> nat \<times> point \<Rightarrow> world" where
  "make_vertex w ip =
     w\<lparr>vheap := (vheap w)(fst ip := Vertex_init (fst ip) (snd ip)),
       vertices := vertices w @ [fst ip]\<rparr>"

definition make_vertices :: "tessellation \<Rightarrow> world \<Rightarrow> world" where
  "make_vertices t w = fold (\<lambda>ip w'. make_vertex w' ip) (enumerate 0 (vor_vertices t)) w"

definition make_ridge :: "world \<Rightarrow> nat \<times> (int \<times> int) \<Rightarrow> error + world" where
  "make_ridge w ip =
     (case ip of (i, (k, j)) \<Rightarrow>
        if k = -1 \<or> j = -1 then Inr w
        else case py_index (vertices w) k of
               Inl e \<Rightarrow> Inl e
             | Inr e1 \<Rightarrow>
                (case py_index (vertices w) j of
                   Inl e \<Rightarrow> Inl e
                 | Inr e2 \<Rightarrow>
                     Inr ((Ridge_init i e1 e2 w)\<lparr>ridges := ridges w @ [i]\<rparr>)))"

definition make_ridges :: "tessellation \<Rightarrow> world \<Rightarrow> error + world" where
  "make_ridges t w = fold_err make_ridge (enumerate 0 (ridge_vertices t)) w"

definition make_patch :: "world \<Rightarrow> nat \<times> int list \<Rightarrow> error + world" where
  "make_patch w ir =
     (case ir of (i, region) \<Rightarrow>
        if -1 \<in> set region \<or> length region = 0 then Inr w
        else case py_index_all (vertices w) region of
               Inl e \<Rightarrow> Inl e
             | Inr patch_vertices \<Rightarrow>
                (case Patch_init i patch_vertices w of
                   Inl e \<Rightarrow> Inl e
                 | Inr w1 \<Rightarrow> Inr (w1\<lparr>patches := patches w1 @ [i]\<rparr>)))"

definition make_patches :: "tessellation \<Rightarrow> world \<Rightarrow> error + world" where
  "make_patches t w = fold_err make_patch (enumerate 0 (regions t)) w"

definition set_patch_neighbor :: "nat \<Rightarrow> nat \<Rightarrow> nat \<Rightarrow> world \<Rightarrow> world" where
  \<comment> \<open>\<^verbatim>\<open>p.neighbors[ridge] = q\<close>\<close>
  "set_patch_neighbor p rdg q w =
     w\<lparr>pheap := (pheap w)(p := (pheap w p)
          \<lparr>p_neighbors := dict_set rdg q (p_neighbors (pheap w p))\<rparr>)\<rparr>"

definition add_patch_to_ridge :: "nat \<Rightarrow> nat \<Rightarrow> world \<Rightarrow> world" where
  \<comment> \<open>\<^verbatim>\<open>ridge.patches.add(p)\<close>\<close>
  "add_patch_to_ridge rdg p w =
     w\<lparr>rheap := (rheap w)(rdg := (rheap w rdg)\<lparr>r_patches := set_add p (r_patches (rheap w rdg))\<rparr>)\<rparr>"

definition make_neighbor :: "world \<Rightarrow> nat \<Rightarrow> error + world" where
  \<comment> \<open>the body of the loop of \<^verbatim>\<open>_make_neighbors\<close>; unpacking more than two raises\<close>
  "make_neighbor w rdg =
     (let neighbors = filter (\<lambda>p. p \<in> set (v_patches (vheap w (end_2 (rheap w rdg)))))
                        (v_patches (vheap w (end_1 (rheap w rdg))))
      in if length neighbors < 2 then Inr w
         else case neighbors of
                [p1, p2] \<Rightarrow>
                  Inr (add_patch_to_ridge rdg p2 (add_patch_to_ridge rdg p1
                        (set_patch_neighbor p2 rdg p1 (set_patch_neighbor p1 rdg p2 w))))
              | _ \<Rightarrow> Inl ValueError)"

definition make_neighbors :: "world \<Rightarrow> error + world" where
  "make_neighbors w = fold_err make_neighbor (ridges w) w"

definition empty_world :: "real \<times> real \<Rightarrow> real \<times> real \<Rightarrow> world" where
  \<comment> \<open>the attributes set by \<^verbatim>\<open>World.__init__\<close> before the mesh is built; the stores
      hold no object yet, their content at an address not yet used is never read\<close>
  "empty_world xl yl =
     \<lparr>vertices = [], ridges = [], patches = [],
      vheap = (\<lambda>_. Vertex_init 0 (0, 0)),
      rheap = (\<lambda>_. \<lparr>r_name = 0, end_1 = 0, end_2 = 0, r_patches = [], r_flux = 0\<rparr>),
      pheap = (\<lambda>_. \<lparr>p_name = 0, p_vertices = [], p_neighbors = [], centroid = (0, 0),
                     h_memo = None, slope_memo = None\<rparr>),
      cached_land_patches = [], cached_patch_network = None,
      x_lim = xl, y_lim = yl, sea_level = 0\<rparr>"

definition World_init :: "tessellation \<Rightarrow> real \<times> real \<Rightarrow> real \<times> real \<Rightarrow> error + world" where
  "World_init t xl yl =
     (case make_ridges t (make_vertices t (empty_world xl yl)) of
        Inl e \<Rightarrow> Inl e
      | Inr w2 \<Rightarrow>
         (case make_patches t w2 of
            Inl e \<Rightarrow> Inl e
          | Inr w3 \<Rightarrow> make_neighbors w3))"

subsection \<open>Height field: set_heights, normalize_heights, add_slope, add_hill\<close>

definition check_coord :: "world \<Rightarrow> point \<Rightarrow> bool" where
  "check_coord w c =
     ((fst (x_lim w) < fst c \<and> fst c < snd (x_lim w)) \<and>
      (fst (y_lim w) < snd c \<and> snd c < snd (y_lim w)))"

definition in_bounds :: "world \<Rightarrow> nat \<Rightarrow> bool" where
  "in_bounds w v = check_coord w (v_coords (vheap w v))"

definition set_heights :: "world \<Rightarrow> real \<Rightarrow> world" where
  "set_heights w h = fold (\<lambda>v w'. set_height v h w') (vertices w) w"

fun py_min_list :: "real list \<Rightarrow> error + real" where
  \<comment> \<open>\<^verbatim>\<open>min(xs)\<close>: raises on an empty list\<close>
  "py_min_list [] = Inl ValueError"
| "py_min_list (x # xs) = Inr (fold (\<lambda>y m. if y < m then y else m) xs x)"

fun py_max_list :: "real list \<Rightarrow> error + real" where
  "py_max_list [] = Inl ValueError"
| "py_max_list (x # xs) = Inr (fold (\<lambda>y m. if m < y then y else m) xs x)"

definition normalize_vertex :: "real \<Rightarrow> real \<Rightarrow> world \<Rightarrow> nat \<Rightarrow> error + world" where
  \<comment> \<open>\<^verbatim>\<open>v.height = (v.height - min_h) / (max_h - min_h)\<close>: the division of two equal
      heights is a division of zero by zero; Python numbers raise, numpy numbers give
      \<open>NaN\<close>, and the model returns the error for both\<close>
  "normalize_vertex min_h max_h w v =
     (if max_h - min_h = 0 then Inl ZeroDivisionError
      else Inr (set_height v ((height_of w v - min_h) / (max_h - min_h)) w))"

definition normalize_heights :: "world \<Rightarrow> error + world" where
  "normalize_heights w =
     (let heights = map (height_of w) (vertices w)
      in case py_min_list heights of
           Inl e \<Rightarrow> Inl e
         | Inr min_h \<Rightarrow>
            (case py_max_list heights of
               Inl e \<Rightarrow> Inl e
             | Inr max_h \<Rightarrow> fold_err (normalize_vertex min_h max_h) (vertices w) w))"

definition slope_vertex :: "point \<Rightarrow> world \<Rightarrow> nat \<Rightarrow> world" where
  \<comment> \<open>\<^verbatim>\<open>v.height = np.dot(v.coords, slope)\<close> for a vertex in bounds\<close>
  "slope_vertex sl w v =
     (if in_bounds w v
      then set_height v (fst (v_coords (vheap w v)) * fst sl + snd (v_coords (vheap w v)) * snd sl) w
      else w)"

definition add_slope ::
  "world \<Rightarrow> real option \<Rightarrow> point option \<Rightarrow> bool \<Rightarrow> point \<Rightarrow> error + world" where
  \<comment> \<open>a given slope is a numpy array of two numbers; the last argument is the pair drawn
      by \<^verbatim>\<open>np.random.random(2)\<close>, read only when no slope is given; a drawn pair of norm
      zero gives a slope that is not a number, and then every vertex in bounds would get a
      height that is not a number\<close>
  "add_slope w magnitude slope do_normalize drawn =
     (case (case slope of
              Some s \<Rightarrow> Inr s
            | None \<Rightarrow>
                let s = (fst drawn - 1 / 2, snd drawn - 1 / 2); n = dist_pt s (0, 0)
                in if n = 0 then Inl NonFinite else Inr (fst s / n, snd s / n)) of
        Inl e \<Rightarrow>
          if list_ex (in_bounds w) (vertices w) then Inl e
          else if do_normalize then normalize_heights w else Inr w
      | Inr s \<Rightarrow>
          let s' = (case magnitude of
                      None \<Rightarrow> s
                    | Some m \<Rightarrow> if m \<noteq> 0 then (fst s * m, snd s * m) else s);
              w' = fold (\<lambda>v w'. slope_vertex s' w' v) (vertices w) w
          in if do_normalize then normalize_heights w' else Inr w')"

definition hill_vertex :: "point \<Rightarrow> real \<Rightarrow> world \<Rightarrow> nat \<Rightarrow> error + world" where
  \<comment> \<open>\<^verbatim>\<open>h = np.exp(-v.dist(hill)**2/(2*r**2)) ** 2; v.height += h\<close>; with \<open>r = 0\<close>
      the quotient is minus infinity (then \<open>h = 0\<close>) or, at distance zero, not a number\<close>
  "hill_vertex hill r w v =
     (if in_bounds w v
      then let d = dist_pt (v_coords (vheap w v)) hill
           in if 2 * r\<^sup>2 = 0
              then (if d = 0 then Inl NonFinite else Inr (set_height v (height_of w v + 0) w))
              else Inr (set_height v (height_of w v + (exp (- d\<^sup>2 / (2 * r\<^sup>2)))\<^sup>2) w)
      else Inr w)"

definition add_hill :: "world \<Rightarrow> point \<Rightarrow> real \<Rightarrow> bool \<Rightarrow> error + world" where
  \<comment> \<open>the hill is the given one or the drawn one\<close>
  "add_hill w hill r do_normalize =
     (case fold_err (hill_vertex hill r) (vertices w) w of
        Inl e \<Rightarrow> Inl e
      | Inr w' \<Rightarrow> if do_normalize then normalize_heights w' else Inr w')"

subsection \<open>Rivers: reset_rivers, make_rivers\<close>

definition reset_rivers :: "world \<Rightarrow> world" where
  "reset_rivers w =
     (let w1 = fold (\<lambda>v w'. set_flux v (1 / real (length (vertices w))) w') (vertices w) w
      in fold (\<lambda>r w'. set_ridge_flux r 0 w') (ridges w1) w1)"

definition vertices_by_height :: "world \<Rightarrow> nat list" where
  \<comment> \<open>\<^verbatim>\<open>sorted(self.vertices, key=lambda x: x.height, reverse=True)\<close>: the stable sort of
      the reversed list, reversed\<close>
  "vertices_by_height w = rev (sort_key (height_of w) (rev (vertices w)))"

fun py_min_key :: "('a \<Rightarrow> real) \<Rightarrow> 'a list \<Rightarrow> error + 'a" where
  \<comment> \<open>\<^verbatim>\<open>min(xs, key=f)\<close>: the first element of least key, raises on an empty collection\<close>
  "py_min_key f [] = Inl ValueError"
| "py_min_key f (x # xs) = Inr (fold (\<lambda>y m. if f y < f m then y else m) xs x)"

definition river_step :: "world \<Rightarrow> nat \<Rightarrow> error + world" where
  "river_step w v =
     (if \<not> in_bounds w v then Inr w
      else case py_min_key (height_of w) (v_neighbors (vheap w v)) of
             Inl e \<Rightarrow> Inl e
           | Inr lowest \<Rightarrow>
               if height_of w lowest < height_of w v
               then let w1 = set_flux lowest (flux_of w lowest + flux_of w v) w
                    in case v_ridges (vheap w1 v) (v_name (vheap w1 lowest)) of
                         None \<Rightarrow> Inl KeyError
                       | Some r \<Rightarrow>
                           Inr (set_ridge_flux r (r_flux (rheap w1 r) + flux_of w1 v) w1)
               else Inr w)"

definition make_rivers :: "world \<Rightarrow> error + world" where
  "make_rivers w =
     (let w1 = reset_rivers w
      in fold_err river_step (vertices_by_height w1) w1)"

subsection \<open>Sea level, land patches, coast line\<close>

definition set_sea_level ::
  "(real list \<Rightarrow> real \<Rightarrow> error + real) \<Rightarrow> world \<Rightarrow> real \<Rightarrow> error + world" where
  \<comment> \<open>the first argument stands for \<^verbatim>\<open>np.percentile\<close>, which is not part of the
      repository\<close>
  "set_sea_level percentile w sl =
     (if sl < 1 then Inr (w\<lparr>sea_level := sl\<rparr>)
      else let heights = map (height_of w) (vertices w)
           in case percentile heights sl of
                Inl e \<Rightarrow> Inl e
              | Inr s \<Rightarrow> Inr (w\<lparr>sea_level := s\<rparr>))"

definition patch_height :: "world \<Rightarrow> nat \<Rightarrow> error + (real \<times> world)" where
  \<comment> \<open>the property \<^verbatim>\<open>Patch.height\<close>: computed at the first read and kept in \<^verbatim>\<open>_h\<close>\<close>
  "patch_height w p =
     (case h_memo (pheap w p) of
        Some h \<Rightarrow> Inr (h, w)
      | None \<Rightarrow>
         (case py_min_list (map (height_of w) (p_vertices (pheap w p))) of
            Inl e \<Rightarrow> Inl e
          | Inr h \<Rightarrow> Inr (h, w\<lparr>pheap := (pheap w)(p := (pheap w p)\<lparr>h_memo := Some h\<rparr>)\<rparr>)))"

fun land_filter :: "nat list \<Rightarrow> world \<Rightarrow> error + (nat list \<times> world)" where
  \<comment> \<open>\<^verbatim>\<open>[p for p in self.patches.values() if p.height > self.sea_level]\<close>\<close>
  "land_filter [] w = Inr ([], w)"
| "land_filter (p # ps) w =
     (case patch_height w p of
        Inl e \<Rightarrow> Inl e
      | Inr (h, w1) \<Rightarrow>
         (case land_filter ps w1 of
            Inl e \<Rightarrow> Inl e
          | Inr (ls, w2) \<Rightarrow> Inr (if h > sea_level w1 then p # ls else ls, w2)))"

definition land_patches :: "world \<Rightarrow> error + (nat list \<times> world)" where
  "land_patches w =
     (if length (cached_land_patches w) = 0
      then case land_filter (patches w) w of
             Inl e \<Rightarrow> Inl e
           | Inr (ls, w1) \<Rightarrow> Inr (ls, w1\<lparr>cached_land_patches := ls\<rparr>)
      else Inr (cached_land_patches w, w))"

definition clean_vertex :: "real \<Rightarrow> world \<Rightarrow> nat \<Rightarrow> world" where
  "clean_vertex epsilon w v =
     (let neighbor_heights = map (height_of w) (v_neighbors (vheap w v))
      in if height_of w v < sea_level w
            \<and> length (filter (\<lambda>h. h > sea_level w) neighbor_heights) > 1
         then set_height v (sea_level w + epsilon) w
         else if height_of w v > sea_level w
            \<and> length (filter (\<lambda>h. h < sea_level w) neighbor_heights) > 1
         then set_height v (sea_level w - epsilon) w
         else w)"

definition clean_coastline :: "world \<Rightarrow> real \<Rightarrow> world" where
  "clean_coastline w epsilon = fold (\<lambda>v w'. clean_vertex epsilon w' v) (vertices w) w"

subsection \<open>The patch network\<close>

definition add_edge :: "nat \<Rightarrow> nat \<Rightarrow> real \<Rightarrow> digraph \<Rightarrow> digraph" where
  \<comment> \<open>\<^verbatim>\<open>DiGraph.add_edge(u, v, weight=weight)\<close> of networkx: both nodes are added when
      new, the weight of an edge already there is replaced\<close>
  "add_edge u v weight g =
     \<lparr>nodes = set_add v (set_add u (nodes g)), edges = dict_set (u, v) weight (edges g)\<rparr>"

definition network_edge :: "nat \<Rightarrow> digraph \<times> world \<Rightarrow> nat \<times> nat \<Rightarrow> error + (digraph \<times> world)" where
  \<comment> \<open>the body of the inner loop of \<^verbatim>\<open>patch_network\<close> for the patch \<open>pt\<close> and the
      item \<open>(r, p)\<close> of its neighbours\<close>
  "network_edge pt gw rp =
     (case gw of (g, w) \<Rightarrow>
      case patch_height w (snd rp) of
        Inl e \<Rightarrow> Inl e
      | Inr (hp, w1) \<Rightarrow>
          if hp < sea_level w1 then Inr (g, w1)
          else case patch_height w1 pt of
                 Inl e \<Rightarrow> Inl e
               | Inr (hpt, w2) \<Rightarrow>
                   let dist = dist_pt (centroid (pheap w2 pt)) (centroid (pheap w2 (snd rp)));
                       delta_h = hp - hpt;
                       weight = dist * exp delta_h
                   in Inr (add_edge (p_name (pheap w2 pt)) (p_name (pheap w2 (snd rp))) weight g, w2))"

definition network_patch :: "digraph \<times> world \<Rightarrow> nat \<Rightarrow> error + (digraph \<times> world)" where
  "network_patch gw pt = fold_err (network_edge pt) (p_neighbors (pheap (snd gw) pt)) gw"

definition patch_network :: "world \<Rightarrow> error + (digraph \<times> world)" where
  "patch_network w =
     (case cached_patch_network w of
        Some g \<Rightarrow> Inr (g, w)
      | None \<Rightarrow>
         (case land_patches w of
            Inl e \<Rightarrow> Inl e
          | Inr (ls, w1) \<Rightarrow>
             (case fold_err network_patch ls (\<lparr>nodes = [], edges = []\<rparr>, w1) of
                Inl e \<Rightarrow> Inl e
              | Inr (g, w2) \<Rightarrow> Inr (g, w2\<lparr>cached_patch_network := Some g\<rparr>))))"

subsection \<open>Notions of the specification and example worlds\<close>

fun np_nonneg :: "npfloat \<Rightarrow> bool" where
  "np_nonneg (Fin a) = (0 \<le> a)"
| "np_nonneg PInf = True"
| "np_nonneg NaN = True"
| "np_nonneg NInf = False"

definition spec_slope :: "world \<Rightarrow> nat \<Rightarrow> real" where
  \<comment> \<open>the slope of the specification: the height difference of the ends over the length\<close>
  "spec_slope w r =
     \<bar>height_of w (end_1 (rheap w r)) - height_of w (end_2 (rheap w r))\<bar> / ridge_length w r"

definition spec_total :: "real \<Rightarrow> world \<Rightarrow> nat \<Rightarrow> real" where
  \<comment> \<open>the total of the specification: \<open>min(1000*sqrt(flux)*slope + slope^2, max_total)\<close>\<close>
  "spec_total max_total w r =
     min (1000 * (sqrt (r_flux (rheap w r)) * spec_slope w r) + (spec_slope w r)\<^sup>2) max_total"

definition river_world :: world where
  \<comment> \<open>two vertices at distance 1, heights 1 and 0, joined by the ridge 0 of flux 1\<close>
  "river_world =
     (empty_world (0, 1) (0, 1))
       \<lparr>vertices := [0, 1], ridges := [0],
        vheap := (\<lambda>i. if i = 0
                       then (Vertex_init 0 (0, 0))
                              \<lparr>v_neighbors := [1], v_ridges := [1 \<mapsto> 0], v_height := 1\<rparr>
                       else (Vertex_init 1 (1, 0))
                              \<lparr>v_neighbors := [0], v_ridges := [0 \<mapsto> 0], v_height := 0\<rparr>),
        rheap := (\<lambda>_. \<lparr>r_name = 0, end_1 = 0, end_2 = 1, r_patches = [], r_flux = 1\<rparr>)\<rparr>"

definition degenerate_world :: world where
  \<comment> \<open>the ridge 0 joins two vertices at the same point and of the same height\<close>
  "degenerate_world =
     (empty_world (0, 1) (0, 1))
       \<lparr>vertices := [0, 1], ridges := [0],
        vheap := (\<lambda>i. if i = 0
                       then (Vertex_init 0 (1 / 2, 1 / 2))
                              \<lparr>v_neighbors := [1], v_ridges := [1 \<mapsto> 0]\<rparr>
                       else (Vertex_init 1 (1 / 2, 1 / 2))
                              \<lparr>v_neighbors := [0], v_ridges := [0 \<mapsto> 0]\<rparr>),
        rheap := (\<lambda>_. \<lparr>r_name = 0, end_1 = 0, end_2 = 1, r_patches = [], r_flux = 1\<rparr>)\<rparr>"


definition patch_height_now :: "world \<Rightarrow> nat \<Rightarrow> real" where
  \<comment> \<open>what reading \<^verbatim>\<open>p.height\<close> gives in the world \<open>w\<close>, for a patch that has a stored
      height or at least one vertex\<close>
  "patch_height_now w p =
     (case h_memo (pheap w p) of
        Some h \<Rightarrow> h
      | None \<Rightarrow> Min (set (map (height_of w) (p_vertices (pheap w p)))))"

definition patch_readable :: "world \<Rightarrow> nat \<Rightarrow> bool" where
  "patch_readable w p = (h_memo (pheap w p) \<noteq> None \<or> p_vertices (pheap w p) \<noteq> [])"

definition heights :: "world \<Rightarrow> real set" where
  "heights w = height_of w ` set (vertices w)"

definition tiny :: tessellation where
  \<comment> \<open>four Voronoi vertices, the last one outside the unit square; five bounded ridges and
      one ridge to infinity; an empty region, two bounded triangles that share the ridge 1,
      and an unbounded region\<close>
  "tiny =
     \<lparr>vor_vertices = [(1 / 4, 1 / 4), (3 / 4, 1 / 4), (1 / 4, 3 / 4), (5 / 4, 5 / 4)],
      ridge_vertices = [(0, 1), (1, 2), (2, 0), (1, 3), (3, 2), (-1, 0)],
      regions = [[], [0, 1, 2], [1, 3, 2], [-1, 0, 1]]\<rparr>"

definition the_world :: "error + world \<Rightarrow> world" where
  \<comment> \<open>the world a call returned; the empty world stands for a failed call\<close>
  "the_world r = (case r of Inr w \<Rightarrow> w | Inl e \<Rightarrow> empty_world (0, 1) (0, 1))"

definition tiny_world :: world where
  \<comment> \<open>\<^verbatim>\<open>World(points)\<close> for the tessellation \<open>tiny\<close>, default limits\<close>
  "tiny_world = the_world (World_init tiny (0, 1) (0, 1))"

definition slope_world :: world where
  \<comment> \<open>\<^verbatim>\<open>add_slope(slope=[1, 0])\<close> on \<open>tiny_world\<close>\<close>
  "slope_world = the_world (add_slope tiny_world None (Some (1, 0)) False (0, 0))"

definition memo_only :: "world \<Rightarrow> world \<Rightarrow> bool" where
  \<comment> \<open>\<open>w1\<close> is \<open>w\<close> but for patch heights stored by reading \<^verbatim>\<open>Patch.height\<close>\<close>
  "memo_only w w1 =
     (vertices w1 = vertices w \<and> ridges w1 = ridges w \<and> patches w1 = patches w \<and>
      vheap w1 = vheap w \<and> rheap w1 = rheap w \<and>
      cached_land_patches w1 = cached_land_patches w \<and>
      cached_patch_network w1 = cached_patch_network w \<and>
      x_lim w1 = x_lim w \<and> y_lim w1 = y_lim w \<and> sea_level w1 = sea_level w \<and>
      (\<forall>q. p_name (pheap w1 q) = p_name (pheap w q) \<and>
           p_vertices (pheap w1 q) = p_vertices (pheap w q) \<and>
           p_neighbors (pheap w1 q) = p_neighbors (pheap w q) \<and>
           centroid (pheap w1 q) = centroid (pheap w q) \<and>
           slope_memo (pheap w1 q) = slope_memo (pheap w q) \<and>
           (h_memo (pheap w1 q) = h_memo (pheap w q) \<or>
            h_memo (pheap w q) = None \<and> p_vertices (pheap w q) \<noteq> [] \<and>
            h_memo (pheap w1 q) = Some (patch_height_now w q))))"

definition land_now :: "world \<Rightarrow> nat list" where
  \<comment> \<open>the patches whose height is above the sea level, in the order of the dictionary\<close>
  "land_now w = filter (\<lambda>p. patch_height_now w p > sea_level w) (patches w)"

definition topology ::
  "world \<Rightarrow> nat list \<times> nat list \<times> (nat \<Rightarrow> nat \<times> nat list \<times> (nat \<rightharpoonup> nat)) \<times> (nat \<Rightarrow> nat \<times> nat)" where
  \<comment> \<open>the part of a world that the adjacency of vertices and ridges is made of\<close>
  "topology w =
     (vertices w, ridges w,
      (\<lambda>v. (v_name (vheap w v), v_neighbors (vheap w v), v_ridges (vheap w v))),
      (\<lambda>r. (end_1 (rheap w r), end_2 (rheap w r))))"

definition geometry :: "world \<Rightarrow> (real \<times> real) \<times> (real \<times> real) \<times> (nat \<Rightarrow> point \<times> real)" where
  \<comment> \<open>the limits, and the coordinates and height of every vertex\<close>
  "geometry w = (x_lim w, y_lim w, (\<lambda>v. (v_coords (vheap w v), v_height (vheap w v))))"

definition rivers_ready :: "world \<Rightarrow> bool" where
  \<comment> \<open>every vertex in bounds has a neighbour, and the ridge to each of its neighbours is
      in its dictionary\<close>
  "rivers_ready w =
     (\<forall>v\<in>set (vertices w). in_bounds w v \<longrightarrow>
        v_neighbors (vheap w v) \<noteq> [] \<and>
        (\<forall>n\<in>set (v_neighbors (vheap w v)). v_ridges (vheap w v) (v_name (vheap w n)) \<noteq> None))"

definition mean_point :: "point list \<Rightarrow> point" where
  \<comment> \<open>the coordinate-wise mean of a list of points\<close>
  "mean_point ps =
     (sum_list (map fst ps) / real (length ps), sum_list (map snd ps) / real (length ps))"

definition patch_shape :: "world \<Rightarrow> nat list \<times> (nat \<Rightarrow> nat list \<times> point) \<times> (nat \<Rightarrow> point)" where
  \<comment> \<open>the patches of a world with their vertices and centroids, and the coordinates of
      the vertices\<close>
  "patch_shape w =
     (patches w, (\<lambda>p. (p_vertices (pheap w p), centroid (pheap w p))),
      (\<lambda>v. v_coords (vheap w v)))"

definition patch_closed :: "world \<Rightarrow> nat \<Rightarrow> bool" where
  \<comment> \<open>a patch with at least one vertex whose centroid is the mean of its vertices\<close>
  "patch_closed w p =
     (1 \<le> length (p_vertices (pheap w p)) \<and>
      centroid (pheap w p) =
        mean_point (map (\<lambda>v. v_coords (vheap w v)) (p_vertices (pheap w p))))"

definition bounded_region :: "int list \<Rightarrow> bool" where
  \<comment> \<open>a region that \<^verbatim>\<open>_make_patches\<close> does not skip\<close>
  "bounded_region region = (\<not> (-1 \<in> set region \<or> length region = 0))"

definition thin :: tessellation where
  \<comment> \<open>a tessellation with a region of two vertices that is not flagged unbounded\<close>
  "thin =
     \<lparr>vor_vertices = [(1 / 4, 1 / 4), (3 / 4, 1 / 4)],
      ridge_vertices = [(0, 1)],
      regions = [[0, 1]]\<rparr>"

definition from_region :: "(nat \<times> int list) set \<Rightarrow> world \<Rightarrow> nat \<Rightarrow> bool" where
  \<comment> \<open>the patch \<open>p\<close> is closed and was made from a region of \<open>S\<close> that is not skipped,
      with one vertex for each index of the region\<close>
  "from_region S w p =
     (patch_closed w p \<and>
      (\<exists>region. (p, region) \<in> S \<and> bounded_region region \<and>
         length (p_vertices (pheap w p)) = length region))"

definition ridge_symmetric :: "world \<Rightarrow> nat \<Rightarrow> bool" where
  \<comment> \<open>each end of the ridge \<open>r\<close> is a neighbour of the other end, and \<open>r\<close> is in the
      dictionary of each end under the name of the other\<close>
  "ridge_symmetric w r =
     (end_1 (rheap w r) \<in> set (v_neighbors (vheap w (end_2 (rheap w r)))) \<and>
      end_2 (rheap w r) \<in> set (v_neighbors (vheap w (end_1 (rheap w r)))) \<and>
      v_ridges (vheap w (end_1 (rheap w r))) (v_name (vheap w (end_2 (rheap w r)))) = Some r \<and>
      v_ridges (vheap w (end_2 (rheap w r))) (v_name (vheap w (end_1 (rheap w r)))) = Some r)"

definition mesh_symmetric :: "world \<Rightarrow> bool" where
  "mesh_symmetric w = (\<forall>r\<in>set (ridges w). ridge_symmetric w r)"

definition bounded_ridge :: "int \<times> int \<Rightarrow> bool" where
  \<comment> \<open>a ridge that \<^verbatim>\<open>_make_ridges\<close> does not skip\<close>
  "bounded_ridge kj = (\<not> (fst kj = -1 \<or> snd kj = -1))"

definition ends_of :: "int \<times> int \<Rightarrow> nat set" where
  "ends_of kj = {nat (fst kj), nat (snd kj)}"

definition ridges_distinct :: "tessellation \<Rightarrow> bool" where
  \<comment> \<open>what the model asks of scipy's output: no index below \<open>-1\<close>, and no two bounded
      ridges between the same pair of vertices\<close>
  "ridges_distinct t =
     ((\<forall>kj\<in>set (ridge_vertices t). -1 \<le> fst kj \<and> -1 \<le> snd kj) \<and>
      distinct (map ends_of (filter bounded_ridge (ridge_vertices t))))"

inductive reachable :: "tessellation \<Rightarrow> world \<Rightarrow> bool" for t :: tessellation where
  \<comment> \<open>the worlds that the construction and then any sequence of the operations give\<close>
  r_init: "World_init t xl yl = Inr w \<Longrightarrow> reachable t w"
| r_set_heights: "reachable t w \<Longrightarrow> reachable t (set_heights w h)"
| r_normalize_heights: "reachable t w \<Longrightarrow> normalize_heights w = Inr w' \<Longrightarrow> reachable t w'"
| r_add_slope:
    "reachable t w \<Longrightarrow> add_slope w magnitude slope nz drawn = Inr w' \<Longrightarrow> reachable t w'"
| r_add_hill: "reachable t w \<Longrightarrow> add_hill w hill r nz = Inr w' \<Longrightarrow> reachable t w'"
| r_reset_rivers: "reachable t w \<Longrightarrow> reachable t (reset_rivers w)"
| r_make_rivers: "reachable t w \<Longrightarrow> make_rivers w = Inr w' \<Longrightarrow> reachable t w'"
| r_erode_heights:
    "reachable t w \<Longrightarrow> erode_heights w max_total drop_factor = Inr w' \<Longrightarrow> reachable t w'"
| r_set_sea_level:
    "reachable t w \<Longrightarrow> set_sea_level percentile w sl = Inr w' \<Longrightarrow> reachable t w'"
| r_land_patches: "reachable t w \<Longrightarrow> land_patches w = Inr (ls, w') \<Longrightarrow> reachable t w'"
| r_clean_coastline: "reachable t w \<Longrightarrow> reachable t (clean_coastline w epsilon)"
| r_patch_network: "reachable t w \<Longrightarrow> patch_network w = Inr (g, w') \<Longrightarrow> reachable t w'"

definition pending_ok :: "(nat \<times> (int \<times> int)) list \<Rightarrow> bool" where
  \<comment> \<open>the ridges still to be made have different numbers, no index below \<open>-1\<close>, and
      the bounded ones among them join different pairs of vertices\<close>
  "pending_ok pending =
     (distinct (map fst pending) \<and>
      distinct (map ends_of (filter bounded_ridge (map snd pending))) \<and>
      (\<forall>ip\<in>set pending. -1 \<le> fst (snd ip) \<and> -1 \<le> snd (snd ip)))"

definition ridges_inv :: "nat \<Rightarrow> (nat \<times> (int \<times> int)) list \<Rightarrow> world \<Rightarrow> bool" where
  \<comment> \<open>the invariant of the loop of \<^verbatim>\<open>_make_ridges\<close> over a world of \<open>n\<close> vertices
      named by their numbers: every ridge made so far is symmetric, and differs in number
      and in its pair of ends from the ridges still to be made\<close>
  "ridges_inv n pending w =
     (vertices w = [0..<n] \<and> (\<forall>v<n. v_name (vheap w v) = v) \<and>
      (\<forall>r\<in>set (ridges w).
         end_1 (rheap w r) < n \<and> end_2 (rheap w r) < n \<and> ridge_symmetric w r \<and>
         r \<notin> set (map fst pending) \<and>
         {end_1 (rheap w r), end_2 (rheap w r)} \<notin>
           set (map ends_of (filter bounded_ridge (map snd pending)))))"

section \<open>Properties\<close>

subsection \<open>Arithmetic of values that may not be finite\<close>

lemma np_nonneg_mul: "np_nonneg x \<Longrightarrow> np_nonneg y \<Longrightarrow> np_nonneg (np_mul x y)"
  by (cases x; cases y) (auto simp: signed_inf_def)

lemma np_nonneg_add: "np_nonneg x \<Longrightarrow> np_nonneg y \<Longrightarrow> np_nonneg (np_add x y)"
  by (cases x; cases y) auto

lemma np_nonneg_sqrt: "np_nonneg (np_sqrt x)"
  by (cases x) auto

lemma np_nonneg_min: "np_nonneg x \<Longrightarrow> 0 \<le> m \<Longrightarrow> np_nonneg (py_min2 x (Fin m))"
  by (cases x) (auto simp: py_min2_def)

lemma dist_pt_nonneg: "0 \<le> dist_pt a b"
  by (simp add: dist_pt_def)

subsection \<open>Frame lemmas of the setters\<close>

lemma height_of_set_height:
  "height_of (set_height v h w) u = (if u = v then h else height_of w u)"
  by (simp add: height_of_def set_height_def)

lemma rheap_set_height: "rheap (set_height v h w) = rheap w"
  by (simp add: set_height_def)

lemma ridges_set_height: "ridges (set_height v h w) = ridges w"
  by (simp add: set_height_def)

lemma ridge_length_set_height: "ridge_length (set_height v h w) r = ridge_length w r"
  by (simp add: ridge_length_def set_height_def)

subsection \<open>Erosion\<close>

lemma np_nonneg_slope: "np_nonneg (ridge_slope w r)"
  by (simp add: ridge_slope_def ridge_length_def Let_def dist_pt_nonneg)

lemma np_nonneg_total: "0 \<le> m \<Longrightarrow> np_nonneg (erode_total m w r)"
  unfolding erode_total_def Let_def
  by (intro np_nonneg_min np_nonneg_add np_nonneg_mul np_nonneg_sqrt np_nonneg_slope) simp_all

lemma erode_loss_cases:
  "np_sub (Fin h) (np_div (np_mul (Fin (1 / 10)) t) (Fin 500)) = Fin h' \<Longrightarrow>
   \<exists>a. t = Fin a \<and> h' = h - 1 / 10 * a / 500"
  by (cases t) (auto simp: np_sub_def signed_inf_def)

lemma erode_ridge_Inr:
  assumes "erode_ridge m w r = Inr w'"
  shows "w' = w \<or> (\<exists>a. erode_total m w r = Fin a \<and>
           w' = set_height (low_end w r) (height_of w (low_end w r) - 1 / 10 * a / 500) w)"
proof (cases "r_flux (rheap w r) = 0")
  case True
  with assms show ?thesis by (simp add: erode_ridge_def)
next
  case False
  with assms obtain h where h: "np_sub (Fin (height_of w (low_end w r)))
        (np_div (np_mul (Fin (1 / 10)) (erode_total m w r)) (Fin 500)) = Fin h"
      and w': "w' = set_height (low_end w r) h w"
    by (auto simp: erode_ridge_def Let_def split: npfloat.splits)
  from erode_loss_cases[OF h] w' show ?thesis by auto
qed

lemma erode_ridge_noninc:
  assumes "0 \<le> m" "erode_ridge m w r = Inr w'"
  shows "height_of w' v \<le> height_of w v"
proof -
  from erode_ridge_Inr[OF assms(2)] show ?thesis
  proof
    assume "w' = w" then show ?thesis by simp
  next
    assume "\<exists>a. erode_total m w r = Fin a \<and>
           w' = set_height (low_end w r) (height_of w (low_end w r) - 1 / 10 * a / 500) w"
    then obtain a where a: "erode_total m w r = Fin a"
      and w': "w' = set_height (low_end w r) (height_of w (low_end w r) - 1 / 10 * a / 500) w"
      by blast
    from np_nonneg_total[OF assms(1), of w r] a have "0 \<le> a" by simp
    with w' show ?thesis by (simp add: height_of_set_height)
  qed
qed

lemma erode_fold_noninc:
  assumes "0 \<le> m"
  shows "fold_err (erode_ridge m) rs w = Inr w' \<Longrightarrow> height_of w' v \<le> height_of w v"
proof (induction rs arbitrary: w)
  case Nil
  then show ?case by simp
next
  case (Cons r rs)
  from Cons.prems obtain w1 where w1: "erode_ridge m w r = Inr w1"
    and rest: "fold_err (erode_ridge m) rs w1 = Inr w'"
    by (auto split: sum.splits)
  from Cons.IH[OF rest] erode_ridge_noninc[OF assms w1, of v] show ?case by linarith
qed

lemma erode_ridge_frame:
  assumes "erode_ridge m w r = Inr w'"
  shows "rheap w' = rheap w \<and> (\<forall>q. ridge_length w' q = ridge_length w q)"
  using erode_ridge_Inr[OF assms]
  by (auto simp: rheap_set_height ridge_length_set_height)

lemma ridge_slope_pos_length:
  "0 < ridge_length w r \<Longrightarrow> ridge_slope w r = Fin (spec_slope w r)"
  by (simp add: ridge_slope_def spec_slope_def Let_def)

lemma erode_total_fin:
  assumes "0 \<le> r_flux (rheap w r)" "0 < ridge_length w r"
  shows "erode_total m w r = Fin (spec_total m w r)"
  using assms
  by (simp add: erode_total_def spec_total_def ridge_slope_pos_length Let_def py_min2_def
      min_def power2_eq_square)

lemma erode_ridge_fin:
  assumes "0 \<le> r_flux (rheap w r)" "0 < ridge_length w r"
  shows "erode_ridge m w r =
     Inr (if r_flux (rheap w r) = 0 then w
          else set_height (low_end w r)
                 (height_of w (low_end w r) - 1 / 10 * spec_total m w r / 500) w)"
  using assms
  by (simp add: erode_ridge_def erode_total_fin Let_def np_sub_def)

lemma spec_total_ge0:
  assumes "0 \<le> m" "0 \<le> r_flux (rheap w r)"
  shows "0 \<le> spec_total m w r"
proof -
  have "0 \<le> spec_slope w r"
    by (simp add: spec_slope_def ridge_length_def dist_pt_nonneg)
  then have "0 \<le> 1000 * (sqrt (r_flux (rheap w r)) * spec_slope w r) + (spec_slope w r)\<^sup>2"
    using assms(2) by simp
  with assms(1) show ?thesis by (simp add: spec_total_def)
qed

lemma erode_fold_total:
  assumes "\<forall>r\<in>set rs. 0 \<le> r_flux (rheap w r) \<and> 0 < ridge_length w r"
  shows "\<exists>w'. fold_err (erode_ridge m) rs w = Inr w'"
  using assms
proof (induction rs arbitrary: w)
  case Nil
  then show ?case by simp
next
  case (Cons r rs)
  from Cons.prems have r: "0 \<le> r_flux (rheap w r)" "0 < ridge_length w r" by simp_all
  from erode_ridge_fin[OF r, of m] obtain w1 where w1: "erode_ridge m w r = Inr w1" by blast
  from erode_ridge_frame[OF w1] Cons.prems
  have "\<forall>q\<in>set rs. 0 \<le> r_flux (rheap w1 q) \<and> 0 < ridge_length w1 q" by simp
  from Cons.IH[OF this] w1 show ?case by simp
qed

lemma low_end_lower:
  "height_of w (low_end w r) =
     min (height_of w (end_1 (rheap w r))) (height_of w (end_2 (rheap w r)))"
  by (simp add: low_end_def min_def)

lemma river_world_facts:
  "r_flux (rheap river_world 0) = 1" "ridge_length river_world 0 = 1"
  "low_end river_world 0 = 1" "height_of river_world 1 = 0"
  "height_of river_world (Suc 0) = 0" "height_of river_world 0 = 1"
  "spec_slope river_world 0 = 1" "ridges river_world = [0]"
  by (simp_all add: river_world_def empty_world_def Vertex_init_def ridge_length_def
      dist_pt_def low_end_def height_of_def spec_slope_def)

text \<open>
  Claim C2, as amended. For a cap \<open>max_total\<close> that is not negative: a ridge of flux zero
  leaves the world as it is; for a ridge of positive flux and positive length the step of
  \<^verbatim>\<open>erode_heights\<close> computes \<open>total = min(1000*sqrt(flux)*slope + slope^2, max_total)\<close>
  and lowers the end of lower height by \<open>0.1 * total / 500\<close>, an amount between zero and
  \<open>0.1 * max_total / 500\<close>; a whole pass raises the height of no vertex; and a pass over
  ridges of positive length and flux that is not negative returns a world.
\<close>

theorem erode_heights_lowers:
  assumes "0 \<le> max_total"
  shows "(r_flux (rheap w r) = 0 \<longrightarrow> erode_ridge max_total w r = Inr w) \<and>
         (0 < r_flux (rheap w r) \<and> 0 < ridge_length w r \<longrightarrow>
            erode_ridge max_total w r =
              Inr (set_height (low_end w r)
                     (height_of w (low_end w r) - 1 / 10 * spec_total max_total w r / 500) w) \<and>
            height_of w (low_end w r) =
              min (height_of w (end_1 (rheap w r))) (height_of w (end_2 (rheap w r))) \<and>
            0 \<le> 1 / 10 * spec_total max_total w r / 500 \<and>
            1 / 10 * spec_total max_total w r / 500 \<le> 1 / 10 * max_total / 500) \<and>
         (\<forall>w'. erode_heights w max_total drop_factor = Inr w' \<longrightarrow>
            (\<forall>v. height_of w' v \<le> height_of w v)) \<and>
         ((\<forall>q\<in>set (ridges w). 0 \<le> r_flux (rheap w q) \<and> 0 < ridge_length w q) \<longrightarrow>
            (\<exists>w'. erode_heights w max_total drop_factor = Inr w'))"
proof (intro conjI impI allI)
  assume "r_flux (rheap w r) = 0"
  then show "erode_ridge max_total w r = Inr w" by (simp add: erode_ridge_def)
next
  assume a: "0 < r_flux (rheap w r) \<and> 0 < ridge_length w r"
  then show "erode_ridge max_total w r =
      Inr (set_height (low_end w r)
             (height_of w (low_end w r) - 1 / 10 * spec_total max_total w r / 500) w)"
    using erode_ridge_fin[of w r max_total] by simp
  show "height_of w (low_end w r) =
      min (height_of w (end_1 (rheap w r))) (height_of w (end_2 (rheap w r)))"
    by (rule low_end_lower)
  from a spec_total_ge0[OF assms, of w r]
  show "0 \<le> 1 / 10 * spec_total max_total w r / 500" by simp
  show "1 / 10 * spec_total max_total w r / 500 \<le> 1 / 10 * max_total / 500"
    by (simp add: spec_total_def)
next
  fix w' v
  assume "erode_heights w max_total drop_factor = Inr w'"
  then show "height_of w' v \<le> height_of w v"
    using erode_fold_noninc[OF assms] by (simp add: erode_heights_def)
next
  assume "\<forall>q\<in>set (ridges w). 0 \<le> r_flux (rheap w q) \<and> 0 < ridge_length w q"
  then show "\<exists>w'. erode_heights w max_total drop_factor = Inr w'"
    using erode_fold_total by (simp add: erode_heights_def)
qed

text \<open>The theorem at the world of two vertices and one ridge, with the cap 500.\<close>

theorem erode_heights_lowers_witness:
  "(0::real) \<le> 500 \<and> 0 < r_flux (rheap river_world 0) \<and> 0 < ridge_length river_world 0 \<and>
   erode_ridge 500 river_world 0 = Inr (set_height 1 (- (1 / 10)) river_world) \<and>
   (\<exists>w'. erode_heights river_world 500 (1 / 10) = Inr w')"
  using erode_heights_lowers[of 500 river_world 0 "1 / 10"]
  by (simp add: river_world_facts spec_total_def)

text \<open>
  Claim C2 as stated fails for a negative cap: with \<open>max_total = -500\<close> the total is
  \<open>-500\<close> and the pass raises the lower vertex from 0 to 0.1.
\<close>

theorem erode_heights_negative_cap_raises:
  "erode_heights river_world (- 500) (1 / 10) = Inr (set_height 1 (1 / 10) river_world) \<and>
   height_of river_world 1 < height_of (set_height 1 (1 / 10) river_world) 1"
proof -
  have "erode_ridge (- 500) river_world 0 = Inr (set_height 1 (1 / 10) river_world)"
    using erode_ridge_fin[of river_world 0 "- 500"]
    by (simp add: river_world_facts spec_total_def)
  then show ?thesis
    by (simp add: erode_heights_def river_world_facts height_of_set_height)
qed

text \<open>
  Claim C10. \<^verbatim>\<open>erode_heights\<close> never reads its argument \<^verbatim>\<open>drop_factor\<close>: two calls
  that differ only in it give the same result, for every world and every cap.
\<close>

theorem erode_heights_ignores_drop_factor:
  "erode_heights w max_total d1 = erode_heights w max_total d2"
  by (simp add: erode_heights_def)

subsection \<open>The slope of a ridge\<close>

text \<open>
  Claim C7, as amended. \<^verbatim>\<open>Ridge.slope\<close> divides the height difference by the length
  with no guard: on a ridge of positive length it is the finite quotient, which is not
  negative; on a ridge of length zero it is \<open>NaN\<close> when the two ends have the same height
  and plus infinity otherwise, never zero.
\<close>

theorem ridge_slope_unguarded:
  "(0 < ridge_length w r \<longrightarrow>
      ridge_slope w r = Fin (spec_slope w r) \<and> 0 \<le> spec_slope w r) \<and>
   (ridge_length w r = 0 \<longrightarrow>
      ridge_slope w r =
        (if height_of w (end_1 (rheap w r)) = height_of w (end_2 (rheap w r))
         then NaN else PInf))"
  by (auto simp: ridge_slope_def spec_slope_def Let_def ridge_length_def dist_pt_nonneg)

text \<open>The theorem at a ridge of length 1 and at a ridge of length 0.\<close>

theorem ridge_slope_unguarded_witness:
  "0 < ridge_length river_world 0 \<and> ridge_slope river_world 0 = Fin 1 \<and>
   ridge_length degenerate_world 0 = 0 \<and> ridge_slope degenerate_world 0 = NaN"
proof -
  have d: "ridge_length degenerate_world 0 = 0"
      "height_of degenerate_world (end_1 (rheap degenerate_world 0)) =
       height_of degenerate_world (end_2 (rheap degenerate_world 0))"
    by (simp_all add: degenerate_world_def empty_world_def Vertex_init_def ridge_length_def
        dist_pt_def height_of_def)
  show ?thesis
    using ridge_slope_unguarded[of river_world 0] ridge_slope_unguarded[of degenerate_world 0] d
    by (simp add: river_world_facts)
qed

text \<open>
  Claim C7 as stated fails: the slope of a ridge whose ends coincide is \<open>NaN\<close>, not zero.
\<close>

theorem ridge_slope_zero_length_is_nan:
  "ridge_length degenerate_world 0 = 0 \<and> ridge_slope degenerate_world 0 = NaN \<and>
   ridge_slope degenerate_world 0 \<noteq> Fin 0"
  by (simp add: degenerate_world_def empty_world_def Vertex_init_def ridge_length_def
      dist_pt_def height_of_def ridge_slope_def)

subsection \<open>Normalising the heights\<close>

lemma py_min_fold: "fold (\<lambda>y m. if y < m then y else m) xs (x::real) = Min (set (x # xs))"
proof -
  have "(\<lambda>y m. if y < m then y else m) = (min :: real \<Rightarrow> real \<Rightarrow> real)"
    by (intro ext) (simp add: min_def)
  then show ?thesis using Min.set_eq_fold[of x xs] by simp
qed

lemma py_max_fold: "fold (\<lambda>y m. if m < y then y else m) xs (x::real) = Max (set (x # xs))"
proof -
  have "(\<lambda>y m. if m < y then y else m) = (max :: real \<Rightarrow> real \<Rightarrow> real)"
    by (intro ext) (simp add: max_def)
  then show ?thesis using Max.set_eq_fold[of x xs] by simp
qed

lemma py_min_list_Min: "xs \<noteq> [] \<Longrightarrow> py_min_list xs = Inr (Min (set xs))"
  by (cases xs) (simp_all add: py_min_fold del: set_simps)

lemma py_max_list_Max: "xs \<noteq> [] \<Longrightarrow> py_max_list xs = Inr (Max (set xs))"
  by (cases xs) (simp_all add: py_max_fold del: set_simps)

lemma normalize_fold:
  assumes "mx - mn \<noteq> 0" "distinct vs"
  shows "\<exists>w'. fold_err (normalize_vertex mn mx) vs w = Inr w' \<and>
           (\<forall>v. height_of w' v =
                  (if v \<in> set vs then (height_of w v - mn) / (mx - mn) else height_of w v)) \<and>
           vertices w' = vertices w"
  using assms(2)
proof (induction vs arbitrary: w)
  case Nil
  then show ?case by simp
next
  case (Cons a vs)
  let ?w1 = "set_height a ((height_of w a - mn) / (mx - mn)) w"
  from Cons.prems have d: "distinct vs" and a: "a \<notin> set vs" by simp_all
  from Cons.IH[OF d, of ?w1] obtain w' where
    w': "fold_err (normalize_vertex mn mx) vs ?w1 = Inr w'"
    and h: "\<forall>v. height_of w' v =
         (if v \<in> set vs then (height_of ?w1 v - mn) / (mx - mn) else height_of ?w1 v)"
    and vs: "vertices w' = vertices ?w1"
    by blast
  have "fold_err (normalize_vertex mn mx) (a # vs) w = Inr w'"
    using assms(1) w' by (simp add: normalize_vertex_def)
  moreover have "\<forall>v. height_of w' v =
      (if v \<in> set (a # vs) then (height_of w v - mn) / (mx - mn) else height_of w v)"
    using h a by (auto simp: height_of_set_height)
  moreover have "vertices w' = vertices w" using vs by (simp add: set_height_def)
  ultimately show ?case by blast
qed

text \<open>
  Claim C6, as amended. \<^verbatim>\<open>normalize_heights\<close> has no guard. On a world without vertices
  \<^verbatim>\<open>min\<close> raises. When all vertex heights are equal the division is of zero by zero
  and the call fails; it does not set the heights to zero. Otherwise (the vertex list without
  repetition) it returns, and every vertex height \<open>h\<close> becomes
  \<open>(h - min) / (max - min)\<close>, a value from 0 to 1 that is 0 at the least and 1 at the
  greatest height; no other vertex changes.
\<close>

theorem normalize_heights_rescales_or_fails:
  "(vertices w = [] \<longrightarrow> normalize_heights w = Inl ValueError) \<and>
   (vertices w \<noteq> [] \<and> Max (heights w) = Min (heights w) \<longrightarrow>
      normalize_heights w = Inl ZeroDivisionError) \<and>
   (vertices w \<noteq> [] \<and> distinct (vertices w) \<and> Max (heights w) \<noteq> Min (heights w) \<longrightarrow>
      (\<exists>w'. normalize_heights w = Inr w' \<and>
         (\<forall>v\<in>set (vertices w).
            height_of w' v = (height_of w v - Min (heights w)) / (Max (heights w) - Min (heights w)) \<and>
            0 \<le> height_of w' v \<and> height_of w' v \<le> 1 \<and>
            (height_of w v = Min (heights w) \<longrightarrow> height_of w' v = 0) \<and>
            (height_of w v = Max (heights w) \<longrightarrow> height_of w' v = 1)) \<and>
         (\<forall>v. v \<notin> set (vertices w) \<longrightarrow> height_of w' v = height_of w v)))"
proof (intro conjI impI)
  assume "vertices w = []"
  then show "normalize_heights w = Inl ValueError" by (simp add: normalize_heights_def)
next
  assume a: "vertices w \<noteq> [] \<and> Max (heights w) = Min (heights w)"
  then obtain v vs where vs: "vertices w = v # vs" by (cases "vertices w") auto
  have ne: "map (height_of w) (vertices w) \<noteq> []" using a by simp
  have s: "height_of w ` set (vertices w) = heights w" by (simp add: heights_def)
  have z: "fold_err (normalize_vertex (Min (heights w)) (Max (heights w))) (vertices w) w =
      Inl ZeroDivisionError"
    using a by (simp add: vs normalize_vertex_def)
  show "normalize_heights w = Inl ZeroDivisionError"
    by (simp add: normalize_heights_def py_min_list_Min[OF ne] py_max_list_Max[OF ne] s
        Let_def z)
next
  assume a: "vertices w \<noteq> [] \<and> distinct (vertices w) \<and> Max (heights w) \<noteq> Min (heights w)"
  let ?mn = "Min (heights w)" and ?mx = "Max (heights w)"
  have ne: "map (height_of w) (vertices w) \<noteq> []" using a by simp
  have s: "height_of w ` set (vertices w) = heights w" by (simp add: heights_def)
  have fin: "finite (heights w)" "heights w \<noteq> {}" using a by (simp_all add: heights_def)
  from fin obtain x where x: "x \<in> heights w" by blast
  have le: "?mn \<le> ?mx" using Min_le[OF fin(1) x] Max_ge[OF fin(1) x] by linarith
  with a have lt: "?mn < ?mx" by simp
  from a have nz: "?mx - ?mn \<noteq> 0" by simp
  from normalize_fold[OF nz, of "vertices w" w] a obtain w' where
    w': "fold_err (normalize_vertex ?mn ?mx) (vertices w) w = Inr w'"
    and h: "\<forall>v. height_of w' v =
         (if v \<in> set (vertices w) then (height_of w v - ?mn) / (?mx - ?mn) else height_of w v)"
    by blast
  have n: "normalize_heights w = Inr w'"
    using w' by (simp add: normalize_heights_def py_min_list_Min[OF ne] py_max_list_Max[OF ne] s
        Let_def)
  have b: "\<forall>v\<in>set (vertices w). ?mn \<le> height_of w v \<and> height_of w v \<le> ?mx"
    using fin by (simp add: heights_def)
  have "\<forall>v\<in>set (vertices w).
            height_of w' v = (height_of w v - ?mn) / (?mx - ?mn) \<and>
            0 \<le> height_of w' v \<and> height_of w' v \<le> 1 \<and>
            (height_of w v = ?mn \<longrightarrow> height_of w' v = 0) \<and>
            (height_of w v = ?mx \<longrightarrow> height_of w' v = 1)"
    using h b lt by (auto simp: divide_le_eq)
  moreover have "\<forall>v. v \<notin> set (vertices w) \<longrightarrow> height_of w' v = height_of w v"
    using h by simp
  ultimately show "\<exists>w'. normalize_heights w = Inr w' \<and>
         (\<forall>v\<in>set (vertices w).
            height_of w' v = (height_of w v - ?mn) / (?mx - ?mn) \<and>
            0 \<le> height_of w' v \<and> height_of w' v \<le> 1 \<and>
            (height_of w v = ?mn \<longrightarrow> height_of w' v = 0) \<and>
            (height_of w v = ?mx \<longrightarrow> height_of w' v = 1)) \<and>
         (\<forall>v. v \<notin> set (vertices w) \<longrightarrow> height_of w' v = height_of w v)"
    using n by blast
qed

lemma river_world_heights:
  "vertices river_world = [0, 1]" "heights river_world = {0, 1}"
  by (auto simp: river_world_def empty_world_def Vertex_init_def heights_def height_of_def)

text \<open>
  The theorem at the world of two vertices of heights 1 and 0, and at the same world after
  \<^verbatim>\<open>set_heights(1)\<close>.
\<close>

theorem normalize_heights_rescales_or_fails_witness:
  "vertices river_world \<noteq> [] \<and> distinct (vertices river_world) \<and>
   Max (heights river_world) \<noteq> Min (heights river_world) \<and>
   (\<exists>w'. normalize_heights river_world = Inr w' \<and> height_of w' 0 = 1 \<and> height_of w' 1 = 0) \<and>
   vertices (set_heights river_world 1) \<noteq> [] \<and>
   Max (heights (set_heights river_world 1)) = Min (heights (set_heights river_world 1)) \<and>
   normalize_heights (set_heights river_world 1) = Inl ZeroDivisionError"
proof -
  have e: "vertices (set_heights river_world 1) = [0, 1]"
     "heights (set_heights river_world 1) = {1}"
    by (auto simp: set_heights_def river_world_heights set_height_def heights_def height_of_def)
  show ?thesis
    using normalize_heights_rescales_or_fails[of river_world]
      normalize_heights_rescales_or_fails[of "set_heights river_world 1"]
    by (auto simp: river_world_heights e river_world_facts)
qed

text \<open>
  Claim C6 as stated fails: after \<^verbatim>\<open>set_heights(1)\<close> all heights are equal and
  \<^verbatim>\<open>normalize_heights\<close> divides zero by zero instead of returning heights of zero.
\<close>

theorem normalize_heights_equal_heights_fails:
  "normalize_heights (set_heights river_world 1) = Inl ZeroDivisionError"
  by (simp add: normalize_heights_def set_heights_def river_world_heights set_height_def
      height_of_def normalize_vertex_def)

subsection \<open>The example worlds\<close>

lemmas build_defs = World_init_def make_vertices_def make_vertex_def make_ridges_def
  make_ridge_def make_patches_def make_patch_def make_neighbors_def make_neighbor_def
  empty_world_def Vertex_init_def Ridge_init_def Patch_init_def add_neighbor_def set_add_def
  find_centroid_def add_patch_to_vertex_def set_patch_neighbor_def add_patch_to_ridge_def
  py_index_def Let_def

lemma tiny_world_built: "World_init tiny (0, 1) (0, 1) = Inr tiny_world"
  by (simp add: tiny_world_def the_world_def tiny_def build_defs)

lemma tiny_world_lists:
  "vertices tiny_world = [0, 1, 2, 3]" "ridges tiny_world = [0, 1, 2, 3, 4]"
  "patches tiny_world = [1, 2]" "cached_land_patches tiny_world = []"
  "cached_patch_network tiny_world = None" "sea_level tiny_world = 0"
  "x_lim tiny_world = (0, 1)" "y_lim tiny_world = (0, 1)"
  by (simp_all add: tiny_world_def the_world_def tiny_def build_defs)

lemma tiny_world_vertices:
  "vheap tiny_world 0 = \<lparr>v_name = 0, v_coords = (1 / 4, 1 / 4), v_neighbors = [1, 2],
      v_patches = [1], v_ridges = [1 \<mapsto> 0, 2 \<mapsto> 2], v_height = 0, v_flux = 1\<rparr>"
  "vheap tiny_world (Suc 0) = \<lparr>v_name = 1, v_coords = (3 / 4, 1 / 4), v_neighbors = [0, 2, 3],
      v_patches = [1, 2], v_ridges = [0 \<mapsto> 0, 2 \<mapsto> 1, 3 \<mapsto> 3], v_height = 0, v_flux = 1\<rparr>"
  "vheap tiny_world 2 = \<lparr>v_name = 2, v_coords = (1 / 4, 3 / 4), v_neighbors = [1, 0, 3],
      v_patches = [1, 2], v_ridges = [1 \<mapsto> 1, 0 \<mapsto> 2, 3 \<mapsto> 4], v_height = 0, v_flux = 1\<rparr>"
  "vheap tiny_world 3 = \<lparr>v_name = 3, v_coords = (5 / 4, 5 / 4), v_neighbors = [1, 2],
      v_patches = [2], v_ridges = [1 \<mapsto> 3, 2 \<mapsto> 4], v_height = 0, v_flux = 1\<rparr>"
  by (simp_all add: tiny_world_def the_world_def tiny_def build_defs eval_nat_numeral)

lemma tiny_world_ridges:
  "rheap tiny_world 0 = \<lparr>r_name = 0, end_1 = 0, end_2 = 1, r_patches = [], r_flux = 0\<rparr>"
  "rheap tiny_world (Suc 0) = \<lparr>r_name = 1, end_1 = 1, end_2 = 2, r_patches = [1, 2], r_flux = 0\<rparr>"
  "rheap tiny_world 2 = \<lparr>r_name = 2, end_1 = 2, end_2 = 0, r_patches = [], r_flux = 0\<rparr>"
  "rheap tiny_world 3 = \<lparr>r_name = 3, end_1 = 1, end_2 = 3, r_patches = [], r_flux = 0\<rparr>"
  "rheap tiny_world 4 = \<lparr>r_name = 4, end_1 = 3, end_2 = 2, r_patches = [], r_flux = 0\<rparr>"
  by (simp_all add: tiny_world_def the_world_def tiny_def build_defs eval_nat_numeral)

lemma tiny_world_patches:
  "pheap tiny_world (Suc 0) = \<lparr>p_name = 1, p_vertices = [0, 1, 2], p_neighbors = [(1, 2)],
      centroid = (5 / 12, 5 / 12), h_memo = None, slope_memo = None\<rparr>"
  "pheap tiny_world 2 = \<lparr>p_name = 2, p_vertices = [1, 3, 2], p_neighbors = [(1, 1)],
      centroid = (3 / 4, 3 / 4), h_memo = None, slope_memo = None\<rparr>"
  by (simp_all add: tiny_world_def the_world_def tiny_def build_defs eval_nat_numeral)

text \<open>The example worlds after \<^verbatim>\<open>add_slope\<close>.\<close>

lemma slope_world_built:
  "add_slope tiny_world None (Some (1, 0)) False (0, 0) = Inr slope_world"
  by (simp add: slope_world_def the_world_def add_slope_def)

lemma slope_world_lists:
  "vertices slope_world = [0, 1, 2, 3]" "ridges slope_world = [0, 1, 2, 3, 4]"
  "patches slope_world = [1, 2]" "cached_land_patches slope_world = []"
  "cached_patch_network slope_world = None" "sea_level slope_world = 0"
  "rheap slope_world = rheap tiny_world" "pheap slope_world = pheap tiny_world"
  by (simp_all add: slope_world_def the_world_def add_slope_def tiny_world_lists
      slope_vertex_def in_bounds_def check_coord_def tiny_world_vertices set_height_def Let_def)

lemma slope_world_heights:
  "height_of slope_world 0 = 1 / 4" "height_of slope_world (Suc 0) = 3 / 4"
  "height_of slope_world 2 = 1 / 4" "height_of slope_world 3 = 0"
  by (simp_all add: slope_world_def the_world_def add_slope_def tiny_world_lists
      slope_vertex_def in_bounds_def check_coord_def tiny_world_vertices set_height_def
      height_of_def Let_def)

subsection \<open>Sea level\<close>




subsection \<open>Land patches\<close>

lemma patch_height_now_upd:
  "patch_height_now (w\<lparr>cached_land_patches := c\<rparr>) p = patch_height_now w p"
  "patch_height_now (w\<lparr>sea_level := sl\<rparr>) p = patch_height_now w p"
proof -
  have "height_of (w\<lparr>cached_land_patches := c\<rparr>) = height_of w"
    "height_of (w\<lparr>sea_level := sl\<rparr>) = height_of w"
    by (simp_all add: fun_eq_iff height_of_def)
  then show "patch_height_now (w\<lparr>cached_land_patches := c\<rparr>) p = patch_height_now w p"
    "patch_height_now (w\<lparr>sea_level := sl\<rparr>) p = patch_height_now w p"
    by (simp_all add: patch_height_now_def split: option.splits)
qed

lemma memo_only_refl: "memo_only w w"
  by (simp add: memo_only_def)

lemma memo_only_height_now:
  "memo_only w w1 \<Longrightarrow> patch_height_now w1 q = patch_height_now w q"
  by (auto simp: memo_only_def patch_height_now_def height_of_def split: option.splits)
    (metis option.distinct(1) option.inject)+

lemma memo_only_readable:
  "memo_only w w1 \<Longrightarrow> patch_readable w q \<Longrightarrow> patch_readable w1 q"
  by (auto simp: memo_only_def patch_readable_def) (metis option.distinct(1))+

lemma memo_only_trans:
  assumes "memo_only w w1" "memo_only w1 w2"
  shows "memo_only w w2"
proof -
  have h: "\<And>q. patch_height_now w1 q = patch_height_now w q"
    using assms(1) by (rule memo_only_height_now)
  show ?thesis
    using assms unfolding memo_only_def h
    by (intro conjI allI) (simp_all, metis)
qed

lemma patch_height_ok:
  assumes "patch_readable w p"
  shows "\<exists>w1. patch_height w p = Inr (patch_height_now w p, w1) \<and> memo_only w w1 \<and>
              h_memo (pheap w1 p) \<noteq> None"
proof (cases "h_memo (pheap w p)")
  case (Some h)
  then show ?thesis
    by (simp add: patch_height_def patch_height_now_def memo_only_refl)
next
  case None
  with assms have ne: "map (height_of w) (p_vertices (pheap w p)) \<noteq> []"
    by (simp add: patch_readable_def)
  let ?h = "Min (set (map (height_of w) (p_vertices (pheap w p))))"
  let ?w1 = "w\<lparr>pheap := (pheap w)(p := (pheap w p)\<lparr>h_memo := Some ?h\<rparr>)\<rparr>"
  have "patch_height w p = Inr (patch_height_now w p, ?w1)"
    using None by (simp add: patch_height_def patch_height_now_def py_min_list_Min[OF ne])
  moreover have "memo_only w ?w1"
    using None ne by (simp add: memo_only_def patch_height_now_def)
  moreover have "h_memo (pheap ?w1 p) \<noteq> None" by simp
  ultimately show ?thesis by blast
qed

lemma land_filter_ok:
  assumes "\<forall>p\<in>set ps. patch_readable w p"
  shows "\<exists>w'. land_filter ps w =
            Inr (filter (\<lambda>p. patch_height_now w p > sea_level w) ps, w') \<and>
          memo_only w w' \<and> (\<forall>p\<in>set ps. h_memo (pheap w' p) \<noteq> None)"
  using assms
proof (induction ps arbitrary: w)
  case Nil
  then show ?case by (simp add: memo_only_refl)
next
  case (Cons p ps)
  from Cons.prems have "patch_readable w p" by simp
  from patch_height_ok[OF this] obtain w1 where
    ph: "patch_height w p = Inr (patch_height_now w p, w1)" and m1: "memo_only w w1"
    and hp: "h_memo (pheap w1 p) \<noteq> None"
    by blast
  from Cons.prems m1 have "\<forall>q\<in>set ps. patch_readable w1 q"
    by (auto intro: memo_only_readable)
  from Cons.IH[OF this] obtain w' where
    lf: "land_filter ps w1 = Inr (filter (\<lambda>p. patch_height_now w1 p > sea_level w1) ps, w')"
    and m2: "memo_only w1 w'" and hs: "\<forall>q\<in>set ps. h_memo (pheap w' q) \<noteq> None"
    by blast
  have s: "sea_level w1 = sea_level w" using m1 by (simp add: memo_only_def)
  have hn: "\<And>q. patch_height_now w1 q = patch_height_now w q"
    using m1 by (rule memo_only_height_now)
  have hp': "h_memo (pheap w' p) \<noteq> None"
    using m2 hp by (auto simp: memo_only_def) (metis option.distinct(1))
  have "land_filter (p # ps) w =
      Inr (filter (\<lambda>p. patch_height_now w p > sea_level w) (p # ps), w')"
    using ph lf by (simp add: s hn)
  moreover have "memo_only w w'" using m1 m2 by (rule memo_only_trans)
  moreover have "\<forall>q\<in>set (p # ps). h_memo (pheap w' q) \<noteq> None" using hp' hs by simp
  ultimately show ?case by blast
qed

lemma land_patches_fresh:
  assumes "cached_land_patches w = []" "\<forall>p\<in>set (patches w). patch_readable w p"
  shows "\<exists>w1. land_patches w = Inr (land_now w, w1\<lparr>cached_land_patches := land_now w\<rparr>) \<and>
           memo_only w w1 \<and> (\<forall>p\<in>set (patches w). h_memo (pheap w1 p) \<noteq> None)"
proof -
  from land_filter_ok[OF assms(2)] obtain w1 where
    lf: "land_filter (patches w) w = Inr (land_now w, w1)" and m: "memo_only w w1"
    and hs: "\<forall>p\<in>set (patches w). h_memo (pheap w1 p) \<noteq> None"
    unfolding land_now_def by blast
  have "land_patches w = Inr (land_now w, w1\<lparr>cached_land_patches := land_now w\<rparr>)"
    using assms(1) lf by (simp add: land_patches_def)
  with m hs show ?thesis by blast
qed

lemma patch_height_now_memo:
  "h_memo (pheap w p) = Some h \<Longrightarrow>
   patch_height_now (w\<lparr>vheap := vh, sea_level := sl\<rparr>) p = h"
  by (simp add: patch_height_now_def)

lemma land_patches_stored:
  assumes "cached_land_patches w = []" "\<forall>p\<in>set (patches w). patch_readable w p"
  shows "\<exists>w1. land_patches w = Inr (land_now w, w1\<lparr>cached_land_patches := land_now w\<rparr>) \<and>
           memo_only w w1 \<and>
           (\<forall>p\<in>set (patches w). h_memo (pheap w1 p) = Some (patch_height_now w p))"
proof -
  from land_patches_fresh[OF assms] obtain w1 where
    lp: "land_patches w = Inr (land_now w, w1\<lparr>cached_land_patches := land_now w\<rparr>)"
    and m: "memo_only w w1" and hs: "\<forall>p\<in>set (patches w). h_memo (pheap w1 p) \<noteq> None"
    by blast
  have "h_memo (pheap w1 p) = Some (patch_height_now w p)" if "p \<in> set (patches w)" for p
  proof -
    from hs that obtain h where h: "h_memo (pheap w1 p) = Some h" by auto
    then have "patch_height_now w1 p = h" by (simp add: patch_height_now_def)
    with memo_only_height_now[OF m, of p] h show ?thesis by simp
  qed
  with lp m show ?thesis by blast
qed

text \<open>
  Claim C5, as amended. When the list kept in \<^verbatim>\<open>_land_patches\<close> is not empty,
  \<^verbatim>\<open>land_patches\<close> returns it and changes nothing, whatever the vertex heights and the sea
  level have become. When it is empty (every patch having a stored height or a vertex), the
  property reads \<^verbatim>\<open>Patch.height\<close> of every patch, which stores the height in
  \<^verbatim>\<open>Patch._h\<close>, returns the patches whose height is above the current sea level and keeps
  that list. When that list is empty the kept list is empty again, and the next access
  computes the list anew from the stored patch heights and the sea level of that moment: the
  vertex heights of that moment are not read, so a change of heights made in between does
  not show in the answer.
\<close>

theorem land_patches_caching:
  "(cached_land_patches w \<noteq> [] \<longrightarrow>
      land_patches w = Inr (cached_land_patches w, w) \<and>
      (\<forall>vh sl. land_patches (w\<lparr>vheap := vh, sea_level := sl\<rparr>) =
                 Inr (cached_land_patches w, w\<lparr>vheap := vh, sea_level := sl\<rparr>))) \<and>
   (cached_land_patches w = [] \<and> (\<forall>p\<in>set (patches w). patch_readable w p) \<longrightarrow>
      (\<exists>w'. land_patches w = Inr (land_now w, w') \<and>
            cached_land_patches w' = land_now w \<and>
            patches w' = patches w \<and> vheap w' = vheap w \<and> sea_level w' = sea_level w \<and>
            (\<forall>p. patch_height_now w' p = patch_height_now w p) \<and>
            (\<forall>p\<in>set (patches w). h_memo (pheap w' p) = Some (patch_height_now w p)) \<and>
            (land_now w = [] \<longrightarrow>
               (\<forall>vh sl. \<exists>w''. land_patches (w'\<lparr>vheap := vh, sea_level := sl\<rparr>) =
                  Inr (filter (\<lambda>p. patch_height_now w p > sl) (patches w), w'')))))"
proof (intro conjI impI allI)
  assume "cached_land_patches w \<noteq> []"
  then show "land_patches w = Inr (cached_land_patches w, w)"
    by (simp add: land_patches_def)
next
  fix vh sl
  assume "cached_land_patches w \<noteq> []"
  then show "land_patches (w\<lparr>vheap := vh, sea_level := sl\<rparr>) =
      Inr (cached_land_patches w, w\<lparr>vheap := vh, sea_level := sl\<rparr>)"
    by (simp add: land_patches_def)
next
  assume a: "cached_land_patches w = [] \<and> (\<forall>p\<in>set (patches w). patch_readable w p)"
  from land_patches_stored[of w] a obtain w1 where
    lp: "land_patches w = Inr (land_now w, w1\<lparr>cached_land_patches := land_now w\<rparr>)"
    and m: "memo_only w w1"
    and hs: "\<forall>p\<in>set (patches w). h_memo (pheap w1 p) = Some (patch_height_now w p)"
    by blast
  let ?w' = "w1\<lparr>cached_land_patches := land_now w\<rparr>"
  have hn: "\<And>q. patch_height_now w1 q = patch_height_now w q"
    using m by (rule memo_only_height_now)
  have f: "patches ?w' = patches w" "vheap ?w' = vheap w" "sea_level ?w' = sea_level w"
    using m by (simp_all add: memo_only_def)
  have hn': "\<forall>p. patch_height_now ?w' p = patch_height_now w p"
    using hn by (simp add: patch_height_now_upd)
  have hs': "\<forall>p\<in>set (patches w). h_memo (pheap ?w' p) = Some (patch_height_now w p)"
    using hs by simp
  have re: "land_now w = [] \<longrightarrow>
      (\<forall>vh sl. \<exists>w''. land_patches (?w'\<lparr>vheap := vh, sea_level := sl\<rparr>) =
          Inr (filter (\<lambda>p. patch_height_now w p > sl) (patches w), w''))"
  proof (intro impI allI)
    fix vh sl
    assume e: "land_now w = []"
    let ?v = "?w'\<lparr>vheap := vh, sea_level := sl\<rparr>"
    have c: "cached_land_patches ?v = []" using e by simp
    have r: "\<forall>p\<in>set (patches ?v). patch_readable ?v p"
      using hs f(1) by (simp add: patch_readable_def)
    from land_patches_fresh[OF c r] obtain w2 where
      l: "land_patches ?v = Inr (land_now ?v, w2\<lparr>cached_land_patches := land_now ?v\<rparr>)"
      by blast
    have "patch_height_now ?v p = patch_height_now w p" if "p \<in> set (patches w)" for p
      using hs' that by (simp add: patch_height_now_memo)
    then have "filter (\<lambda>p. patch_height_now ?v p > sl) (patches w) =
        filter (\<lambda>p. patch_height_now w p > sl) (patches w)"
      by (intro filter_cong) simp_all
    then have "land_now ?v = filter (\<lambda>p. patch_height_now w p > sl) (patches w)"
      using f(1) by (simp add: land_now_def)
    with l show "\<exists>w''. land_patches ?v =
        Inr (filter (\<lambda>p. patch_height_now w p > sl) (patches w), w'')"
      by auto
  qed
  show "\<exists>w'. land_patches w = Inr (land_now w, w') \<and>
            cached_land_patches w' = land_now w \<and>
            patches w' = patches w \<and> vheap w' = vheap w \<and> sea_level w' = sea_level w \<and>
            (\<forall>p. patch_height_now w' p = patch_height_now w p) \<and>
            (\<forall>p\<in>set (patches w). h_memo (pheap w' p) = Some (patch_height_now w p)) \<and>
            (land_now w = [] \<longrightarrow>
               (\<forall>vh sl. \<exists>w''. land_patches (w'\<lparr>vheap := vh, sea_level := sl\<rparr>) =
                  Inr (filter (\<lambda>p. patch_height_now w p > sl) (patches w), w'')))"
    using lp f hn' hs' re by (intro exI[of _ ?w']) simp
qed

lemma slope_world_patch_heights:
  "patch_height_now slope_world (Suc 0) = 1 / 4" "patch_height_now slope_world 2 = 0"
  "patch_readable slope_world (Suc 0)" "patch_readable slope_world 2"
  by (simp_all add: patch_height_now_def patch_readable_def slope_world_lists
      tiny_world_patches slope_world_heights)

lemma slope_world_land:
  "land_now slope_world = [1]" "land_now (slope_world\<lparr>sea_level := 5\<rparr>) = []"
  by (simp_all add: land_now_def slope_world_lists patch_height_now_upd
      slope_world_patch_heights)

text \<open>
  The theorem on the sloped example world: with a kept list \<open>[1]\<close> the answer is
  \<open>[1]\<close> even after the heights are reset and the sea level is 5; with nothing kept and
  sea level 0 the answer is \<open>[1]\<close> and the patch heights \<open>1/4\<close> and \<open>0\<close> are stored;
  with sea level 5 the answer is empty, nothing is kept, and after all vertex heights are
  reset to zero and the sea level is set to 0 the next access answers \<open>[1]\<close>, from the
  stored heights.
\<close>

theorem land_patches_caching_witness:
  "cached_land_patches (slope_world\<lparr>cached_land_patches := [1]\<rparr>) \<noteq> [] \<and>
   land_patches (slope_world\<lparr>cached_land_patches := [1], vheap := vheap tiny_world,
       sea_level := 5\<rparr>) =
     Inr ([1], slope_world\<lparr>cached_land_patches := [1], vheap := vheap tiny_world,
       sea_level := 5\<rparr>) \<and>
   cached_land_patches slope_world = [] \<and>
   patch_readable slope_world 1 \<and> patch_readable slope_world 2 \<and>
   (\<exists>w'. land_patches slope_world = Inr ([1], w') \<and> cached_land_patches w' = [1] \<and>
      h_memo (pheap w' 1) = Some (1 / 4) \<and> h_memo (pheap w' 2) = Some 0) \<and>
   land_now (slope_world\<lparr>sea_level := 5\<rparr>) = [] \<and>
   (\<exists>w' w''. land_patches (slope_world\<lparr>sea_level := 5\<rparr>) = Inr ([], w') \<and>
      cached_land_patches w' = [] \<and>
      land_patches (w'\<lparr>vheap := vheap tiny_world, sea_level := 0\<rparr>) = Inr ([1], w''))"
proof -
  have r: "\<forall>p\<in>set (patches slope_world). patch_readable slope_world p"
    "\<forall>p\<in>set (patches (slope_world\<lparr>sea_level := 5\<rparr>)).
        patch_readable (slope_world\<lparr>sea_level := 5\<rparr>) p"
    using slope_world_patch_heights(3,4)
    by (simp_all add: slope_world_lists patch_readable_def)
  have f: "filter (\<lambda>p. 0 < patch_height_now slope_world p) (patches slope_world) = [1]"
    by (simp add: slope_world_lists slope_world_patch_heights)
  from land_patches_caching[of "slope_world\<lparr>cached_land_patches := [1]\<rparr>"]
  have a: "land_patches (slope_world\<lparr>cached_land_patches := [1], vheap := vheap tiny_world,
       sea_level := 5\<rparr>) =
     Inr ([1], slope_world\<lparr>cached_land_patches := [1], vheap := vheap tiny_world,
       sea_level := 5\<rparr>)"
    by simp
  from land_patches_caching[of slope_world] r(1)
  have b: "\<exists>w'. land_patches slope_world = Inr ([1], w') \<and> cached_land_patches w' = [1] \<and>
      h_memo (pheap w' 1) = Some (1 / 4) \<and> h_memo (pheap w' 2) = Some 0"
    by (auto simp: slope_world_lists slope_world_land slope_world_patch_heights)
  from land_patches_caching[of "slope_world\<lparr>sea_level := 5\<rparr>"] r(2)
  obtain w' where w': "land_patches (slope_world\<lparr>sea_level := 5\<rparr>) = Inr ([], w')"
    "cached_land_patches w' = []"
    "\<forall>vh sl. \<exists>w''. land_patches (w'\<lparr>vheap := vh, sea_level := sl\<rparr>) =
       Inr (filter (\<lambda>p. sl < patch_height_now (slope_world\<lparr>sea_level := 5\<rparr>) p)
         (patches (slope_world\<lparr>sea_level := 5\<rparr>)), w'')"
    by (auto simp: slope_world_lists slope_world_land)
  from w'(3) have "\<exists>w''. land_patches (w'\<lparr>vheap := vheap tiny_world, sea_level := 0\<rparr>) =
       Inr (filter (\<lambda>p. 0 < patch_height_now (slope_world\<lparr>sea_level := 5\<rparr>) p)
         (patches (slope_world\<lparr>sea_level := 5\<rparr>)), w'')"
    by blast
  then obtain w'' where
    "land_patches (w'\<lparr>vheap := vheap tiny_world, sea_level := 0\<rparr>) = Inr ([1], w'')"
    using f by (auto simp: patch_height_now_upd)
  with w' have c: "\<exists>w' w''. land_patches (slope_world\<lparr>sea_level := 5\<rparr>) = Inr ([], w') \<and>
      cached_land_patches w' = [] \<and>
      land_patches (w'\<lparr>vheap := vheap tiny_world, sea_level := 0\<rparr>) = Inr ([1], w'')"
    by blast
  show ?thesis
    using a b c slope_world_patch_heights(3,4)
    by (simp add: slope_world_lists slope_world_land)
qed

text \<open>
  Claim C5 as stated fails: an empty answer is not recomputed from the current state. On the
  fresh example world (all heights 0, sea level 0) \<^verbatim>\<open>land_patches\<close> answers \<open>[]\<close> and
  stores the height 0 of both patches. After \<^verbatim>\<open>add_slope(slope=[1, 0])\<close> the three vertices
  of patch 1 have the heights \<open>1/4\<close>, \<open>3/4\<close> and \<open>1/4\<close>, all above the sea level 0, and
  nothing is kept; the next access still answers \<open>[]\<close>.
\<close>

theorem land_patches_ignores_later_heights:
  "(case land_patches tiny_world of
      Inr (ls, w1) \<Rightarrow>
        ls = [] \<and>
        (case add_slope w1 None (Some (1, 0)) False (0, 0) of
           Inr w2 \<Rightarrow>
             cached_land_patches w2 = [] \<and> sea_level w2 = 0 \<and>
             p_vertices (pheap w2 1) = [0, 1, 2] \<and>
             height_of w2 0 = 1 / 4 \<and> height_of w2 1 = 3 / 4 \<and> height_of w2 2 = 1 / 4 \<and>
             patches w2 = [1, 2] \<and>
             (case land_patches w2 of Inr (ls2, w3) \<Rightarrow> ls2 = [] | Inl e \<Rightarrow> False)
         | Inl e \<Rightarrow> False)
    | Inl e \<Rightarrow> False)"
  by (simp add: land_patches_def patch_height_def tiny_world_lists tiny_world_patches
      tiny_world_vertices height_of_def add_slope_def slope_vertex_def in_bounds_def
      check_coord_def set_height_def Let_def)

subsection \<open>The patch network\<close>

lemma height_of_other_fields:
  "height_of (w\<lparr>pheap := ph\<rparr>) = height_of w"
  "height_of (w\<lparr>cached_land_patches := c\<rparr>) = height_of w"
  "height_of (w\<lparr>cached_patch_network := g\<rparr>) = height_of w"
  "height_of (w\<lparr>sea_level := sl\<rparr>) = height_of w"
  by (simp_all add: fun_eq_iff height_of_def)

text \<open>
  Claim C3 says that the network has an edge \<open>p \<rightarrow> q\<close> only between land patches, land
  being height above the sea level. \<^verbatim>\<open>patch_network\<close> skips a neighbour only when its
  height is below the sea level, so a neighbour exactly at the sea level gets an edge. In the
  sloped example world (sea level 0, the default) the patch 2 has a vertex outside the limits,
  which \<^verbatim>\<open>add_slope\<close> leaves at height 0: the patch 2 is at the sea level and is not a
  land patch, and the network has the edge from the land patch 1 to it.
\<close>

theorem patch_network_edge_into_sea_level_patch:
  "(case patch_network slope_world of
      Inr (g, w') \<Rightarrow> nodes g = [1, 2] \<and> map fst (edges g) = [(1, 2)]
    | Inl e \<Rightarrow> False) \<and>
   (case land_patches slope_world of Inr (ls, w') \<Rightarrow> ls = [1] | Inl e \<Rightarrow> False) \<and>
   patch_height_now slope_world 2 = sea_level slope_world"
  by (simp add: patch_network_def land_patches_def patch_height_def network_patch_def
      network_edge_def add_edge_def set_add_def slope_world_lists tiny_world_patches
      slope_world_heights height_of_other_fields slope_world_patch_heights Let_def)

subsection \<open>Rivers\<close>

lemma set_flux_frame:
  "topology (set_flux v f w) = topology w" "geometry (set_flux v f w) = geometry w"
  "rheap (set_flux v f w) = rheap w"
  "flux_of (set_flux v f w) u = (if u = v then f else flux_of w u)"
  by (simp_all add: topology_def geometry_def set_flux_def flux_of_def fun_eq_iff)

lemma set_ridge_flux_frame:
  "topology (set_ridge_flux r f w) = topology w" "geometry (set_ridge_flux r f w) = geometry w"
  "vheap (set_ridge_flux r f w) = vheap w"
  "r_flux (rheap (set_ridge_flux r f w) q) = (if q = r then f else r_flux (rheap w q))"
  by (simp_all add: topology_def geometry_def set_ridge_flux_def fun_eq_iff)

lemma geometry_height: "geometry w' = geometry w \<Longrightarrow> height_of w' = height_of w"
  by (auto simp: geometry_def height_of_def fun_eq_iff dest: fun_cong)

lemma geometry_in_bounds: "geometry w' = geometry w \<Longrightarrow> in_bounds w' = in_bounds w"
  by (auto simp: geometry_def in_bounds_def check_coord_def fun_eq_iff dest: fun_cong)

lemma topology_parts:
  assumes "topology w' = topology w"
  shows "vertices w' = vertices w" "ridges w' = ridges w"
    "v_name (vheap w' v) = v_name (vheap w v)"
    "v_neighbors (vheap w' v) = v_neighbors (vheap w v)"
    "v_ridges (vheap w' v) = v_ridges (vheap w v)"
    "end_1 (rheap w' r) = end_1 (rheap w r)" "end_2 (rheap w' r) = end_2 (rheap w r)"
  using assms by (auto simp: topology_def dest: fun_cong)

lemma rivers_ready_frame:
  assumes "topology w' = topology w" "geometry w' = geometry w"
  shows "rivers_ready w' = rivers_ready w"
  by (simp add: rivers_ready_def topology_parts[OF assms(1)] geometry_in_bounds[OF assms(2)])

lemma fold_set_flux:
  "topology (fold (\<lambda>v w'. set_flux v c w') vs w) = topology w \<and>
   geometry (fold (\<lambda>v w'. set_flux v c w') vs w) = geometry w \<and>
   rheap (fold (\<lambda>v w'. set_flux v c w') vs w) = rheap w \<and>
   (\<forall>u. flux_of (fold (\<lambda>v w'. set_flux v c w') vs w) u =
         (if u \<in> set vs then c else flux_of w u))"
  by (induction vs arbitrary: w) (auto simp: set_flux_frame)

lemma fold_set_ridge_flux:
  "topology (fold (\<lambda>r w'. set_ridge_flux r c w') rs w) = topology w \<and>
   geometry (fold (\<lambda>r w'. set_ridge_flux r c w') rs w) = geometry w \<and>
   vheap (fold (\<lambda>r w'. set_ridge_flux r c w') rs w) = vheap w \<and>
   (\<forall>q. r_flux (rheap (fold (\<lambda>r w'. set_ridge_flux r c w') rs w) q) =
         (if q \<in> set rs then c else r_flux (rheap w q)))"
  by (induction rs arbitrary: w) (auto simp: set_ridge_flux_frame)

lemma reset_rivers_frame:
  "topology (reset_rivers w) = topology w" "geometry (reset_rivers w) = geometry w"
  "flux_of (reset_rivers w) u =
     (if u \<in> set (vertices w) then 1 / real (length (vertices w)) else flux_of w u)"
  "r_flux (rheap (reset_rivers w) q) = (if q \<in> set (ridges w) then 0 else r_flux (rheap w q))"
proof -
  let ?c = "1 / real (length (vertices w))"
  let ?w1 = "fold (\<lambda>v w'. set_flux v ?c w') (vertices w) w"
  have r: "reset_rivers w = fold (\<lambda>r w'. set_ridge_flux r 0 w') (ridges ?w1) ?w1"
    by (simp add: reset_rivers_def Let_def)
  have t1: "topology ?w1 = topology w" and g1: "geometry ?w1 = geometry w"
    and r1: "rheap ?w1 = rheap w"
    and f1: "\<forall>u. flux_of ?w1 u = (if u \<in> set (vertices w) then ?c else flux_of w u)"
    using fold_set_flux[of ?c "vertices w" w] by auto
  have rs: "ridges ?w1 = ridges w" using topology_parts(2)[OF t1] .
  note f2 = fold_set_ridge_flux[of 0 "ridges ?w1" ?w1]
  show "topology (reset_rivers w) = topology w" using f2 t1 by (simp add: r)
  show "geometry (reset_rivers w) = geometry w" using f2 g1 by (simp add: r)
  have "vheap (reset_rivers w) = vheap ?w1" using f2 by (simp add: r)
  then show "flux_of (reset_rivers w) u =
     (if u \<in> set (vertices w) then ?c else flux_of w u)"
    using f1 by (simp add: flux_of_def)
  show "r_flux (rheap (reset_rivers w) q) =
      (if q \<in> set (ridges w) then 0 else r_flux (rheap w q))"
    using f2 r1 rs by (simp add: r)
qed

lemma py_min_fold_key:
  "fold (\<lambda>y m. if f y < f m then y else m) xs (x::'a) \<in> set (x # xs) \<and>
   (\<forall>y\<in>set (x # xs). (f (fold (\<lambda>y m. if f y < f m then y else m) xs x) :: real) \<le> f y)"
proof (induction xs arbitrary: x)
  case Nil
  then show ?case by simp
next
  case (Cons a xs)
  show ?case
    using Cons.IH[of a] Cons.IH[of x] by (auto simp: not_less intro: order_trans)
qed

lemma py_min_key_least:
  assumes "xs \<noteq> []"
  shows "\<exists>m. py_min_key f xs = Inr m \<and> m \<in> set xs \<and> (\<forall>y\<in>set xs. f m \<le> f y)"
proof -
  from assms obtain x ys where xs: "xs = x # ys" by (cases xs) auto
  show ?thesis using py_min_fold_key[of f ys x] by (simp add: xs)
qed

lemma vertices_by_height_order:
  "mset (vertices_by_height w) = mset (vertices w) \<and>
   (\<forall>i j. i < j \<and> j < length (vertices w) \<longrightarrow>
      height_of w (vertices_by_height w ! j) \<le> height_of w (vertices_by_height w ! i))"
proof -
  let ?s = "sort_key (height_of w) (rev (vertices w))"
  have m: "mset (vertices_by_height w) = mset (vertices w)"
    by (simp add: vertices_by_height_def)
  have "sorted (map (height_of w) ?s)" by (rule sorted_sort_key)
  then have "sorted_wrt (\<lambda>a b. height_of w a \<le> height_of w b) ?s"
    by (simp add: sorted_wrt_map)
  then have "sorted_wrt (\<lambda>a b. height_of w b \<le> height_of w a) (vertices_by_height w)"
    by (simp add: vertices_by_height_def sorted_wrt_rev)
  moreover have "length (vertices_by_height w) = length (vertices w)"
    by (simp add: vertices_by_height_def)
  ultimately show ?thesis using m by (auto simp: sorted_wrt_iff_nth_less)
qed

lemma vertices_by_height_frame:
  assumes "topology w' = topology w" "geometry w' = geometry w"
  shows "vertices_by_height w' = vertices_by_height w"
  by (simp add: vertices_by_height_def topology_parts(1)[OF assms(1)]
      geometry_height[OF assms(2)])

lemma river_step_out: "\<not> in_bounds w v \<Longrightarrow> river_step w v = Inr w"
  by (simp add: river_step_def)

lemma set_flux_fields:
  "v_ridges (vheap (set_flux u f w) v) = v_ridges (vheap w v)"
  "v_name (vheap (set_flux u f w) v) = v_name (vheap w v)"
  by (simp_all add: set_flux_def)

lemma river_step_unfold:
  assumes "in_bounds w v" "py_min_key (height_of w) (v_neighbors (vheap w v)) = Inr m"
  shows "river_step w v =
     (if height_of w m < height_of w v
      then case v_ridges (vheap w v) (v_name (vheap w m)) of
             None \<Rightarrow> Inl KeyError
           | Some r \<Rightarrow>
               Inr (set_ridge_flux r (r_flux (rheap w r) + flux_of w v)
                      (set_flux m (flux_of w m + flux_of w v) w))
      else Inr w)"
proof (cases "height_of w m < height_of w v")
  case False
  with assms show ?thesis by (simp add: river_step_def)
next
  case True
  then have "v \<noteq> m" by auto
  then have f: "flux_of (set_flux m (flux_of w m + flux_of w v) w) v = flux_of w v"
    by (simp add: set_flux_frame)
  show ?thesis
    using assms True
    by (simp add: river_step_def Let_def set_flux_fields set_flux_frame(3) f
        split: option.splits)
qed

lemma river_step_in:
  assumes "in_bounds w v" "v_neighbors (vheap w v) \<noteq> []"
  shows "\<exists>lowest\<in>set (v_neighbors (vheap w v)).
           (\<forall>n\<in>set (v_neighbors (vheap w v)). height_of w lowest \<le> height_of w n) \<and>
           river_step w v =
             (if height_of w lowest < height_of w v
              then case v_ridges (vheap w v) (v_name (vheap w lowest)) of
                     None \<Rightarrow> Inl KeyError
                   | Some r \<Rightarrow>
                       Inr (set_ridge_flux r (r_flux (rheap w r) + flux_of w v)
                              (set_flux lowest (flux_of w lowest + flux_of w v) w))
              else Inr w)"
proof -
  from py_min_key_least[OF assms(2), of "height_of w"] obtain m where
    m: "py_min_key (height_of w) (v_neighbors (vheap w v)) = Inr m"
    and mi: "m \<in> set (v_neighbors (vheap w v))"
    and ml: "\<forall>y\<in>set (v_neighbors (vheap w v)). height_of w m \<le> height_of w y"
    by blast
  from river_step_unfold[OF assms(1) m] mi ml show ?thesis by blast
qed

lemma river_step_frame:
  assumes "river_step w v = Inr w'"
  shows "topology w' = topology w \<and> geometry w' = geometry w"
proof (cases "in_bounds w v")
  case False
  with assms show ?thesis by (simp add: river_step_def)
next
  case True
  show ?thesis
  proof (cases "py_min_key (height_of w) (v_neighbors (vheap w v))")
    case (Inl e)
    with assms True show ?thesis by (simp add: river_step_def)
  next
    case (Inr m)
    from assms river_step_unfold[OF True Inr] show ?thesis
      by (auto simp: set_flux_frame set_ridge_flux_frame split: if_splits option.splits)
  qed
qed

lemma river_step_total:
  assumes "rivers_ready w" "v \<in> set (vertices w)"
  shows "\<exists>w'. river_step w v = Inr w'"
proof (cases "in_bounds w v")
  case False
  then show ?thesis by (simp add: river_step_out)
next
  case True
  with assms have ne: "v_neighbors (vheap w v) \<noteq> []"
    and rd: "\<forall>n\<in>set (v_neighbors (vheap w v)). v_ridges (vheap w v) (v_name (vheap w n)) \<noteq> None"
    by (auto simp: rivers_ready_def)
  from river_step_in[OF True ne] obtain l where l: "l \<in> set (v_neighbors (vheap w v))"
    and eq: "river_step w v =
             (if height_of w l < height_of w v
              then case v_ridges (vheap w v) (v_name (vheap w l)) of
                     None \<Rightarrow> Inl KeyError
                   | Some r \<Rightarrow>
                       Inr (set_ridge_flux r (r_flux (rheap w r) + flux_of w v)
                              (set_flux l (flux_of w l + flux_of w v) w))
              else Inr w)"
    by blast
  from rd l obtain r where "v_ridges (vheap w v) (v_name (vheap w l)) = Some r" by auto
  with eq show ?thesis by (cases "height_of w l < height_of w v") simp_all
qed

lemma river_loop_total:
  assumes "rivers_ready w" "set vs \<subseteq> set (vertices w)"
  shows "\<exists>w'. fold_err river_step vs w = Inr w' \<and> topology w' = topology w \<and>
            geometry w' = geometry w"
  using assms
proof (induction vs arbitrary: w)
  case Nil
  then show ?case by simp
next
  case (Cons v vs)
  from Cons.prems have "v \<in> set (vertices w)" by simp
  from river_step_total[OF Cons.prems(1) this] obtain w1 where
    w1: "river_step w v = Inr w1" by blast
  from river_step_frame[OF w1] have t: "topology w1 = topology w"
    and g: "geometry w1 = geometry w" by simp_all
  have "rivers_ready w1" using rivers_ready_frame[OF t g] Cons.prems(1) by simp
  moreover have "set vs \<subseteq> set (vertices w1)"
    using Cons.prems(2) topology_parts(1)[OF t] by simp
  ultimately obtain w' where "fold_err river_step vs w1 = Inr w'"
    "topology w' = topology w1" "geometry w' = geometry w1"
    using Cons.IH by blast
  with w1 t g show ?case by simp
qed

lemma make_rivers_total:
  assumes "rivers_ready w"
  shows "\<exists>w'. make_rivers w = Inr w' \<and> topology w' = topology w \<and> geometry w' = geometry w"
proof -
  let ?w1 = "reset_rivers w"
  have t: "topology ?w1 = topology w" and g: "geometry ?w1 = geometry w"
    by (rule reset_rivers_frame)+
  have r: "rivers_ready ?w1" using rivers_ready_frame[OF t g] assms by simp
  have "mset (vertices_by_height ?w1) = mset (vertices ?w1)"
    using vertices_by_height_order by blast
  then have "set (vertices_by_height ?w1) = set (vertices ?w1)" by (rule mset_eq_setD)
  then have s: "set (vertices_by_height ?w1) \<subseteq> set (vertices ?w1)" by simp
  from river_loop_total[OF r s] t g show ?thesis
    by (auto simp: make_rivers_def Let_def)
qed

text \<open>
  Claim C1. \<^verbatim>\<open>reset_rivers\<close> sets the flux of every vertex to \<open>1/|V|\<close> and the flux of
  every ridge to 0 and leaves the heights. \<^verbatim>\<open>make_rivers\<close> then runs the step over the
  vertices sorted by height: every vertex once, and never a vertex before a higher one. The
  step leaves the world as it is for a vertex out of bounds. For a vertex \<open>v\<close> in bounds
  (with a neighbour) it finds a neighbour \<open>lowest\<close> of least height; when that height is
  not below the height of \<open>v\<close> nothing changes; when it is, the flux of \<open>v\<close> is added to
  the flux of \<open>lowest\<close> and to the flux of the ridge between them, and no other flux and
  no height changes. On a mesh where every vertex in bounds has a neighbour and knows the
  ridge to each neighbour, \<^verbatim>\<open>make_rivers\<close> returns.
\<close>

theorem make_rivers_flow:
  "(\<forall>u\<in>set (vertices w). flux_of (reset_rivers w) u = 1 / real (length (vertices w))) \<and>
   (\<forall>q\<in>set (ridges w). r_flux (rheap (reset_rivers w) q) = 0) \<and>
   (\<forall>u. height_of (reset_rivers w) u = height_of w u) \<and>
   make_rivers w = fold_err river_step (vertices_by_height w) (reset_rivers w) \<and>
   mset (vertices_by_height w) = mset (vertices w) \<and>
   (\<forall>i j. i < j \<and> j < length (vertices w) \<longrightarrow>
      height_of w (vertices_by_height w ! j) \<le> height_of w (vertices_by_height w ! i)) \<and>
   (\<not> in_bounds w v \<longrightarrow> river_step w v = Inr w) \<and>
   (in_bounds w v \<and> v_neighbors (vheap w v) \<noteq> [] \<longrightarrow>
      (\<exists>lowest\<in>set (v_neighbors (vheap w v)).
         (\<forall>n\<in>set (v_neighbors (vheap w v)). height_of w lowest \<le> height_of w n) \<and>
         (\<not> height_of w lowest < height_of w v \<longrightarrow> river_step w v = Inr w) \<and>
         (height_of w lowest < height_of w v \<longrightarrow>
            (\<forall>r. v_ridges (vheap w v) (v_name (vheap w lowest)) = Some r \<longrightarrow>
               (\<exists>w'. river_step w v = Inr w' \<and>
                  flux_of w' lowest = flux_of w lowest + flux_of w v \<and>
                  r_flux (rheap w' r) = r_flux (rheap w r) + flux_of w v \<and>
                  (\<forall>u. u \<noteq> lowest \<longrightarrow> flux_of w' u = flux_of w u) \<and>
                  (\<forall>q. q \<noteq> r \<longrightarrow> r_flux (rheap w' q) = r_flux (rheap w q)) \<and>
                  (\<forall>u. height_of w' u = height_of w u)))))) \<and>
   (rivers_ready w \<longrightarrow>
      (\<exists>w'. make_rivers w = Inr w' \<and> (\<forall>u. height_of w' u = height_of w u)))"
proof (intro conjI)
  show "\<forall>u\<in>set (vertices w). flux_of (reset_rivers w) u = 1 / real (length (vertices w))"
    by (simp add: reset_rivers_frame)
  show "\<forall>q\<in>set (ridges w). r_flux (rheap (reset_rivers w) q) = 0"
    by (simp add: reset_rivers_frame)
  show "\<forall>u. height_of (reset_rivers w) u = height_of w u"
    using geometry_height[OF reset_rivers_frame(2), of w] by simp
  show "make_rivers w = fold_err river_step (vertices_by_height w) (reset_rivers w)"
    using vertices_by_height_frame[OF reset_rivers_frame(1,2), of w]
    by (simp add: make_rivers_def Let_def)
  show "mset (vertices_by_height w) = mset (vertices w)"
    using vertices_by_height_order by blast
  show "\<forall>i j. i < j \<and> j < length (vertices w) \<longrightarrow>
      height_of w (vertices_by_height w ! j) \<le> height_of w (vertices_by_height w ! i)"
    using vertices_by_height_order by blast
  show "\<not> in_bounds w v \<longrightarrow> river_step w v = Inr w"
    by (simp add: river_step_out)
  show "in_bounds w v \<and> v_neighbors (vheap w v) \<noteq> [] \<longrightarrow>
      (\<exists>lowest\<in>set (v_neighbors (vheap w v)).
         (\<forall>n\<in>set (v_neighbors (vheap w v)). height_of w lowest \<le> height_of w n) \<and>
         (\<not> height_of w lowest < height_of w v \<longrightarrow> river_step w v = Inr w) \<and>
         (height_of w lowest < height_of w v \<longrightarrow>
            (\<forall>r. v_ridges (vheap w v) (v_name (vheap w lowest)) = Some r \<longrightarrow>
               (\<exists>w'. river_step w v = Inr w' \<and>
                  flux_of w' lowest = flux_of w lowest + flux_of w v \<and>
                  r_flux (rheap w' r) = r_flux (rheap w r) + flux_of w v \<and>
                  (\<forall>u. u \<noteq> lowest \<longrightarrow> flux_of w' u = flux_of w u) \<and>
                  (\<forall>q. q \<noteq> r \<longrightarrow> r_flux (rheap w' q) = r_flux (rheap w q)) \<and>
                  (\<forall>u. height_of w' u = height_of w u)))))"
  proof
    assume a: "in_bounds w v \<and> v_neighbors (vheap w v) \<noteq> []"
    from river_step_in[of w v] a obtain lowest where
      l: "lowest \<in> set (v_neighbors (vheap w v))"
      and lm: "\<forall>n\<in>set (v_neighbors (vheap w v)). height_of w lowest \<le> height_of w n"
      and eq: "river_step w v =
             (if height_of w lowest < height_of w v
              then case v_ridges (vheap w v) (v_name (vheap w lowest)) of
                     None \<Rightarrow> Inl KeyError
                   | Some r \<Rightarrow>
                       Inr (set_ridge_flux r (r_flux (rheap w r) + flux_of w v)
                              (set_flux lowest (flux_of w lowest + flux_of w v) w))
              else Inr w)"
      by blast
    from eq have no: "\<not> height_of w lowest < height_of w v \<longrightarrow> river_step w v = Inr w"
      by simp
    from eq have yes: "height_of w lowest < height_of w v \<longrightarrow>
              (\<forall>r. v_ridges (vheap w v) (v_name (vheap w lowest)) = Some r \<longrightarrow>
                 river_step w v =
                   Inr (set_ridge_flux r (r_flux (rheap w r) + flux_of w v)
                          (set_flux lowest (flux_of w lowest + flux_of w v) w)))"
      by simp
    have eff: "height_of w lowest < height_of w v \<longrightarrow>
            (\<forall>r. v_ridges (vheap w v) (v_name (vheap w lowest)) = Some r \<longrightarrow>
               (\<exists>w'. river_step w v = Inr w' \<and>
                  flux_of w' lowest = flux_of w lowest + flux_of w v \<and>
                  r_flux (rheap w' r) = r_flux (rheap w r) + flux_of w v \<and>
                  (\<forall>u. u \<noteq> lowest \<longrightarrow> flux_of w' u = flux_of w u) \<and>
                  (\<forall>q. q \<noteq> r \<longrightarrow> r_flux (rheap w' q) = r_flux (rheap w q)) \<and>
                  (\<forall>u. height_of w' u = height_of w u)))"
    proof (intro impI allI)
      fix r
      assume h: "height_of w lowest < height_of w v"
        and k: "v_ridges (vheap w v) (v_name (vheap w lowest)) = Some r"
      let ?w' = "set_ridge_flux r (r_flux (rheap w r) + flux_of w v)
                   (set_flux lowest (flux_of w lowest + flux_of w v) w)"
      from yes h k have s: "river_step w v = Inr ?w'" by blast
      have g: "geometry ?w' = geometry w" by (simp add: set_flux_frame set_ridge_flux_frame)
      have "flux_of ?w' lowest = flux_of w lowest + flux_of w v"
        "r_flux (rheap ?w' r) = r_flux (rheap w r) + flux_of w v"
        "\<forall>u. u \<noteq> lowest \<longrightarrow> flux_of ?w' u = flux_of w u"
        "\<forall>q. q \<noteq> r \<longrightarrow> r_flux (rheap ?w' q) = r_flux (rheap w q)"
        by (simp_all add: flux_of_def set_flux_def set_ridge_flux_def)
      moreover have "\<forall>u. height_of ?w' u = height_of w u"
        using geometry_height[OF g] by simp
      ultimately show "\<exists>w'. river_step w v = Inr w' \<and>
                  flux_of w' lowest = flux_of w lowest + flux_of w v \<and>
                  r_flux (rheap w' r) = r_flux (rheap w r) + flux_of w v \<and>
                  (\<forall>u. u \<noteq> lowest \<longrightarrow> flux_of w' u = flux_of w u) \<and>
                  (\<forall>q. q \<noteq> r \<longrightarrow> r_flux (rheap w' q) = r_flux (rheap w q)) \<and>
                  (\<forall>u. height_of w' u = height_of w u)"
        using s by blast
    qed
    from l lm no eff show "\<exists>lowest\<in>set (v_neighbors (vheap w v)).
         (\<forall>n\<in>set (v_neighbors (vheap w v)). height_of w lowest \<le> height_of w n) \<and>
         (\<not> height_of w lowest < height_of w v \<longrightarrow> river_step w v = Inr w) \<and>
         (height_of w lowest < height_of w v \<longrightarrow>
            (\<forall>r. v_ridges (vheap w v) (v_name (vheap w lowest)) = Some r \<longrightarrow>
               (\<exists>w'. river_step w v = Inr w' \<and>
                  flux_of w' lowest = flux_of w lowest + flux_of w v \<and>
                  r_flux (rheap w' r) = r_flux (rheap w r) + flux_of w v \<and>
                  (\<forall>u. u \<noteq> lowest \<longrightarrow> flux_of w' u = flux_of w u) \<and>
                  (\<forall>q. q \<noteq> r \<longrightarrow> r_flux (rheap w' q) = r_flux (rheap w q)) \<and>
                  (\<forall>u. height_of w' u = height_of w u))))"
      by blast
  qed
  show "rivers_ready w \<longrightarrow>
      (\<exists>w'. make_rivers w = Inr w' \<and> (\<forall>u. height_of w' u = height_of w u))"
  proof
    assume "rivers_ready w"
    from make_rivers_total[OF this] obtain w' where
      "make_rivers w = Inr w'" "geometry w' = geometry w" by blast
    then show "\<exists>w'. make_rivers w = Inr w' \<and> (\<forall>u. height_of w' u = height_of w u)"
      using geometry_height[of w' w] by auto
  qed
qed

lemma slope_world_vertices:
  "vheap slope_world 0 = (vheap tiny_world 0)\<lparr>v_height := 1 / 4\<rparr>"
  "vheap slope_world (Suc 0) = (vheap tiny_world (Suc 0))\<lparr>v_height := 3 / 4\<rparr>"
  "vheap slope_world 2 = (vheap tiny_world 2)\<lparr>v_height := 1 / 4\<rparr>"
  "vheap slope_world 3 = vheap tiny_world 3"
  "x_lim slope_world = (0, 1)" "y_lim slope_world = (0, 1)"
  by (simp_all add: slope_world_def the_world_def add_slope_def tiny_world_lists
      slope_vertex_def in_bounds_def check_coord_def tiny_world_vertices set_height_def Let_def)

lemma slope_world_bounds:
  "in_bounds slope_world 0" "in_bounds slope_world (Suc 0)" "in_bounds slope_world 2"
  "\<not> in_bounds slope_world 3"
  by (simp_all add: in_bounds_def check_coord_def slope_world_vertices tiny_world_vertices)

lemma slope_world_ready: "rivers_ready slope_world"
  by (simp add: rivers_ready_def slope_world_lists slope_world_vertices tiny_world_vertices
      slope_world_bounds)

lemma slope_world_order: "vertices_by_height slope_world = [1, 0, 2, 3]"
  by (simp add: vertices_by_height_def slope_world_lists slope_world_heights)

lemma slope_world_rivers:
  "\<exists>w'. fold_err river_step [1, 0, 2, 3] (reset_rivers slope_world) = Inr w' \<and>
      flux_of w' 3 = 3 / 4 \<and> flux_of w' 1 = 1 / 4 \<and> flux_of w' 0 = 1 / 4 \<and>
      flux_of w' 2 = 1 / 4 \<and> r_flux (rheap w' 3) = 1 / 4 \<and> r_flux (rheap w' 4) = 1 / 4 \<and>
      r_flux (rheap w' 0) = 0 \<and> r_flux (rheap w' 1) = 0 \<and> r_flux (rheap w' 2) = 0"
  by (simp add: reset_rivers_def river_step_def slope_world_lists slope_world_vertices
      tiny_world_vertices tiny_world_ridges set_flux_def set_ridge_flux_def flux_of_def
      height_of_def in_bounds_def check_coord_def Let_def)

text \<open>
  The theorem on the sloped example world: the vertices are taken in the order 1, 0, 2, 3;
  the vertex 3 is out of bounds, it sends nothing, and it receives the flux of the vertices
  1 and 2 over the ridges 3 and 4.
\<close>

theorem make_rivers_flow_witness:
  "in_bounds slope_world 1 \<and> v_neighbors (vheap slope_world 1) \<noteq> [] \<and>
   \<not> in_bounds slope_world 3 \<and> river_step slope_world 3 = Inr slope_world \<and>
   rivers_ready slope_world \<and> vertices_by_height slope_world = [1, 0, 2, 3] \<and>
   flux_of (reset_rivers slope_world) 3 = 1 / 4 \<and>
   (\<exists>w'. make_rivers slope_world = Inr w' \<and>
      flux_of w' 3 = 3 / 4 \<and> flux_of w' 1 = 1 / 4 \<and> flux_of w' 0 = 1 / 4 \<and>
      flux_of w' 2 = 1 / 4 \<and> r_flux (rheap w' 3) = 1 / 4 \<and> r_flux (rheap w' 4) = 1 / 4 \<and>
      r_flux (rheap w' 0) = 0 \<and> r_flux (rheap w' 1) = 0 \<and> r_flux (rheap w' 2) = 0)"
proof -
  note t = make_rivers_flow[of slope_world 3]
  from t have m: "make_rivers slope_world =
      fold_err river_step (vertices_by_height slope_world) (reset_rivers slope_world)"
    by blast
  from t have s: "river_step slope_world 3 = Inr slope_world"
    using slope_world_bounds(4) by blast
  from t have f: "flux_of (reset_rivers slope_world) 3 = 1 / 4"
    by (simp add: slope_world_lists)
  have n: "v_neighbors (vheap slope_world 1) \<noteq> []"
    by (simp add: slope_world_vertices tiny_world_vertices)
  show ?thesis
    using slope_world_rivers m s f n slope_world_bounds slope_world_ready
    by (simp add: slope_world_order)
qed

subsection \<open>Construction: the patches\<close>

lemma py_index_all_length:
  "py_index_all xs is = Inr ys \<Longrightarrow> length ys = length is"
  by (induction "is" arbitrary: ys) (auto split: sum.splits)

lemma add_patch_to_vertex_frame:
  "topology (add_patch_to_vertex p w v) = topology w"
  "patch_shape (add_patch_to_vertex p w v) = patch_shape w"
  "pheap (add_patch_to_vertex p w v) = pheap w"
  by (simp_all add: topology_def patch_shape_def add_patch_to_vertex_def fun_eq_iff)

lemma fold_add_patch_frame:
  "topology (fold (\<lambda>v w'. add_patch_to_vertex p w' v) vs w) = topology w \<and>
   patch_shape (fold (\<lambda>v w'. add_patch_to_vertex p w' v) vs w) = patch_shape w \<and>
   pheap (fold (\<lambda>v w'. add_patch_to_vertex p w' v) vs w) = pheap w"
  by (induction vs arbitrary: w) (simp_all add: add_patch_to_vertex_frame)

lemma patch_shape_parts:
  assumes "patch_shape w' = patch_shape w"
  shows "patches w' = patches w" "p_vertices (pheap w' p) = p_vertices (pheap w p)"
    "centroid (pheap w' p) = centroid (pheap w p)"
    "v_coords (vheap w' v) = v_coords (vheap w v)"
proof -
  from assms have a: "patches w' = patches w"
    and b: "(\<lambda>p. (p_vertices (pheap w' p), centroid (pheap w' p))) =
            (\<lambda>p. (p_vertices (pheap w p), centroid (pheap w p)))"
    and c: "(\<lambda>v. v_coords (vheap w' v)) = (\<lambda>v. v_coords (vheap w v))"
    by (simp_all add: patch_shape_def)
  show "patches w' = patches w" by (rule a)
  from fun_cong[OF b, of p]
  show "p_vertices (pheap w' p) = p_vertices (pheap w p)"
    "centroid (pheap w' p) = centroid (pheap w p)"
    by simp_all
  from fun_cong[OF c, of v] show "v_coords (vheap w' v) = v_coords (vheap w v)" by simp
qed

lemma patch_closed_frame:
  assumes "patch_shape w' = patch_shape w"
  shows "patch_closed w' p = patch_closed w p"
  by (simp add: patch_closed_def patch_shape_parts[OF assms])

lemma Patch_init_Inr:
  assumes "vs \<noteq> []"
  shows "\<exists>w1. Patch_init i vs w =
           Inr (w1\<lparr>pheap := (pheap w1)(i :=
                  \<lparr>p_name = i, p_vertices = vs, p_neighbors = [],
                   centroid = mean_point (map (\<lambda>v. v_coords (vheap w v)) vs),
                   h_memo = None, slope_memo = None\<rparr>)\<rparr>) \<and>
         topology w1 = topology w \<and> patch_shape w1 = patch_shape w \<and> pheap w1 = pheap w"
proof -
  let ?w1 = "fold (\<lambda>v w'. add_patch_to_vertex i w' v) vs w"
  note f = fold_add_patch_frame[of i vs w]
  from f have ps: "patch_shape ?w1 = patch_shape w" by blast
  have c: "map (\<lambda>v. v_coords (vheap ?w1 v)) vs = map (\<lambda>v. v_coords (vheap w v)) vs"
    by (simp add: patch_shape_parts(4)[OF ps])
  have "Patch_init i vs w =
      Inr (?w1\<lparr>pheap := (pheap ?w1)(i :=
             \<lparr>p_name = i, p_vertices = vs, p_neighbors = [],
              centroid = mean_point (map (\<lambda>v. v_coords (vheap ?w1 v)) vs),
              h_memo = None, slope_memo = None\<rparr>)\<rparr>)"
    using assms by (simp add: Patch_init_def Let_def find_centroid_def mean_point_def)
  then have "Patch_init i vs w =
      Inr (?w1\<lparr>pheap := (pheap ?w1)(i :=
             \<lparr>p_name = i, p_vertices = vs, p_neighbors = [],
              centroid = mean_point (map (\<lambda>v. v_coords (vheap w v)) vs),
              h_memo = None, slope_memo = None\<rparr>)\<rparr>)"
    by (simp only: c)
  with f show ?thesis by blast
qed

lemma make_patch_cases:
  assumes "make_patch w (i, region) = Inr w'"
  shows "(\<not> bounded_region region \<and> w' = w) \<or>
         (bounded_region region \<and> topology w' = topology w \<and>
          patches w' = patches w @ [i] \<and>
          length (p_vertices (pheap w' i)) = length region \<and> patch_closed w' i \<and>
          (\<forall>q. q \<noteq> i \<longrightarrow> pheap w' q = pheap w q) \<and>
          (\<forall>v. v_coords (vheap w' v) = v_coords (vheap w v)))"
proof (cases "bounded_region region")
  case False
  with assms show ?thesis by (simp add: make_patch_def bounded_region_def)
next
  case True
  with assms obtain pvs where pvs: "py_index_all (vertices w) region = Inr pvs"
    by (auto simp: make_patch_def bounded_region_def split: sum.splits)
  from py_index_all_length[OF pvs] True have l: "length pvs = length region" and ne: "pvs \<noteq> []"
    by (auto simp: bounded_region_def)
  from Patch_init_Inr[OF ne, of i w] obtain w1 where
    pi: "Patch_init i pvs w =
           Inr (w1\<lparr>pheap := (pheap w1)(i :=
                  \<lparr>p_name = i, p_vertices = pvs, p_neighbors = [],
                   centroid = mean_point (map (\<lambda>v. v_coords (vheap w v)) pvs),
                   h_memo = None, slope_memo = None\<rparr>)\<rparr>)"
    and t: "topology w1 = topology w" and s: "patch_shape w1 = patch_shape w"
    and ph: "pheap w1 = pheap w"
    by blast
  let ?w2 = "w1\<lparr>pheap := (pheap w1)(i :=
                  \<lparr>p_name = i, p_vertices = pvs, p_neighbors = [],
                   centroid = mean_point (map (\<lambda>v. v_coords (vheap w v)) pvs),
                   h_memo = None, slope_memo = None\<rparr>)\<rparr>"
  have w': "w' = ?w2\<lparr>patches := patches ?w2 @ [i]\<rparr>"
    using assms True pvs pi by (simp add: make_patch_def bounded_region_def)
  have co: "\<forall>v. v_coords (vheap w' v) = v_coords (vheap w v)"
    using patch_shape_parts(4)[OF s] by (simp add: w')
  have "topology w' = topology w" using t by (simp add: w' topology_def)
  moreover have "patches w' = patches w @ [i]"
    using patch_shape_parts(1)[OF s] by (simp add: w')
  moreover have "length (p_vertices (pheap w' i)) = length region" using l by (simp add: w')
  moreover have "patch_closed w' i"
    using ne co by (simp add: patch_closed_def w' Suc_le_eq)
  moreover have "\<forall>q. q \<noteq> i \<longrightarrow> pheap w' q = pheap w q" using ph by (simp add: w')
  ultimately show ?thesis using True co by blast
qed

lemma from_region_frame:
  assumes "pheap w' q = pheap w q" "\<forall>v. v_coords (vheap w' v) = v_coords (vheap w v)"
  shows "from_region S w' q = from_region S w q"
  using assms by (simp add: from_region_def patch_closed_def)

lemma make_patches_fold:
  assumes "\<forall>p\<in>set (patches w). from_region S w p" "set irs \<subseteq> S"
    "fold_err make_patch irs w = Inr w'"
  shows "(\<forall>p\<in>set (patches w'). from_region S w' p) \<and> topology w' = topology w \<and>
         set (patches w) \<subseteq> set (patches w') \<and>
         (\<forall>ir\<in>set irs. bounded_region (snd ir) \<longrightarrow> fst ir \<in> set (patches w'))"
  using assms
proof (induction irs arbitrary: w)
  case Nil
  then show ?case by simp
next
  case (Cons ir irs)
  obtain i region where ir: "ir = (i, region)" by (cases ir)
  from Cons.prems(3) obtain w1 where w1: "make_patch w (i, region) = Inr w1"
    and rest: "fold_err make_patch irs w1 = Inr w'"
    by (auto simp: ir split: sum.splits)
  from Cons.prems(2) have inS: "(i, region) \<in> S" and sub: "set irs \<subseteq> S" by (simp_all add: ir)
  have step: "(\<forall>p\<in>set (patches w1). from_region S w1 p) \<and> topology w1 = topology w \<and>
      set (patches w) \<subseteq> set (patches w1) \<and> (bounded_region region \<longrightarrow> i \<in> set (patches w1))"
  proof -
    from make_patch_cases[OF w1] show ?thesis
    proof
      assume "\<not> bounded_region region \<and> w1 = w"
      with Cons.prems(1) show ?thesis by simp
    next
      assume a: "bounded_region region \<and> topology w1 = topology w \<and>
          patches w1 = patches w @ [i] \<and>
          length (p_vertices (pheap w1 i)) = length region \<and> patch_closed w1 i \<and>
          (\<forall>q. q \<noteq> i \<longrightarrow> pheap w1 q = pheap w q) \<and>
          (\<forall>v. v_coords (vheap w1 v) = v_coords (vheap w v))"
      then have new: "from_region S w1 i" using inS by (auto simp: from_region_def)
      have old: "from_region S w1 q" if q: "q \<in> set (patches w)" for q
      proof (cases "q = i")
        case True
        with new show ?thesis by simp
      next
        case False
        with a have "pheap w1 q = pheap w q" by simp
        from from_region_frame[OF this, of S] a Cons.prems(1) q show ?thesis by simp
      qed
      from a new old show ?thesis by auto
    qed
  qed
  from Cons.IH[OF _ sub rest] step
  have "(\<forall>p\<in>set (patches w'). from_region S w' p) \<and> topology w' = topology w1 \<and>
         set (patches w1) \<subseteq> set (patches w') \<and>
         (\<forall>ir\<in>set irs. bounded_region (snd ir) \<longrightarrow> fst ir \<in> set (patches w'))"
    by blast
  with step show ?case by (auto simp: ir)
qed

lemma make_neighbor_frame:
  assumes "make_neighbor w r = Inr w'"
  shows "topology w' = topology w \<and> patch_shape w' = patch_shape w"
proof -
  have f: "topology (add_patch_to_ridge r p2 (add_patch_to_ridge r p1
             (set_patch_neighbor p2 r p1 (set_patch_neighbor p1 r p2 w)))) = topology w \<and>
           patch_shape (add_patch_to_ridge r p2 (add_patch_to_ridge r p1
             (set_patch_neighbor p2 r p1 (set_patch_neighbor p1 r p2 w)))) = patch_shape w"
    for p1 p2
    by (simp add: topology_def patch_shape_def add_patch_to_ridge_def set_patch_neighbor_def
        fun_eq_iff)
  from assms show ?thesis
    by (auto simp: make_neighbor_def Let_def f split: if_splits list.splits)
qed

lemma make_neighbors_fold:
  "fold_err make_neighbor rs w = Inr w' \<Longrightarrow>
   topology w' = topology w \<and> patch_shape w' = patch_shape w"
proof (induction rs arbitrary: w)
  case Nil
  then show ?case by simp
next
  case (Cons r rs)
  from Cons.prems obtain w1 where w1: "make_neighbor w r = Inr w1"
    and rest: "fold_err make_neighbor rs w1 = Inr w'"
    by (auto split: sum.splits)
  from make_neighbor_frame[OF w1] Cons.IH[OF rest] show ?case by simp
qed

lemma from_region_shape:
  assumes "patch_shape w' = patch_shape w"
  shows "from_region S w' p = from_region S w p"
  by (simp add: from_region_def patch_closed_frame[OF assms] patch_shape_parts(2)[OF assms])

lemma make_vertices_patches: "patches (make_vertices t w) = patches w"
proof -
  have "patches (fold (\<lambda>ip w'. make_vertex w' ip) ips w) = patches w" for ips
    by (induction ips arbitrary: w) (simp_all add: make_vertex_def)
  then show ?thesis by (simp add: make_vertices_def)
qed

lemma make_ridge_patches: "make_ridge w ip = Inr w' \<Longrightarrow> patches w' = patches w"
  by (auto simp: make_ridge_def Ridge_init_def add_neighbor_def Let_def
      split: prod.splits if_splits sum.splits)

lemma make_ridges_patches: "make_ridges t w = Inr w' \<Longrightarrow> patches w' = patches w"
proof -
  have "fold_err make_ridge ips w = Inr w' \<Longrightarrow> patches w' = patches w" for ips
  proof (induction ips arbitrary: w)
    case Nil
    then show ?case by simp
  next
    case (Cons ip ips)
    from Cons.prems obtain w1 where "make_ridge w ip = Inr w1"
      "fold_err make_ridge ips w1 = Inr w'"
      by (auto split: sum.splits)
    with Cons.IH[of w1] make_ridge_patches[of w ip w1] show ?case by simp
  qed
  then show "make_ridges t w = Inr w' \<Longrightarrow> patches w' = patches w"
    by (simp add: make_ridges_def)
qed

text \<open>
  Claim C9, as amended. \<^verbatim>\<open>World.__init__\<close> checks the size of no region. When it
  returns a world, every patch of that world comes from a region of the tessellation that
  does not contain \<open>-1\<close> and is not empty, has one bounding vertex for each index of that
  region (so at least one), and its centroid is the coordinate-wise mean of the coordinates
  of its vertices; and every region without \<open>-1\<close> that is not empty, whatever its length,
  has its patch in the world.
\<close>

theorem World_init_patches:
  assumes "World_init t xl yl = Inr w"
  shows "(\<forall>p\<in>set (patches w).
            1 \<le> length (p_vertices (pheap w p)) \<and>
            centroid (pheap w p) =
              mean_point (map (\<lambda>v. v_coords (vheap w v)) (p_vertices (pheap w p))) \<and>
            (\<exists>region. (p, region) \<in> set (enumerate 0 (regions t)) \<and>
               \<not> (-1 \<in> set region \<or> length region = 0) \<and>
               length (p_vertices (pheap w p)) = length region)) \<and>
         (\<forall>ir\<in>set (enumerate 0 (regions t)).
            \<not> (-1 \<in> set (snd ir) \<or> length (snd ir) = 0) \<longrightarrow> fst ir \<in> set (patches w))"
proof -
  let ?S = "set (enumerate 0 (regions t))"
  from assms obtain w2 w3 where
    w2: "make_ridges t (make_vertices t (empty_world xl yl)) = Inr w2"
    and w3: "make_patches t w2 = Inr w3" and w: "make_neighbors w3 = Inr w"
    by (auto simp: World_init_def split: sum.splits)
  have "patches w2 = []"
    using make_ridges_patches[OF w2] by (simp add: make_vertices_patches empty_world_def)
  then have i: "\<forall>p\<in>set (patches w2). from_region ?S w2 p" by simp
  from w3 have f: "fold_err make_patch (enumerate 0 (regions t)) w2 = Inr w3"
    by (simp add: make_patches_def)
  from make_patches_fold[OF i _ f]
  have p3: "\<forall>p\<in>set (patches w3). from_region ?S w3 p"
    and a3: "\<forall>ir\<in>?S. bounded_region (snd ir) \<longrightarrow> fst ir \<in> set (patches w3)"
    by simp_all
  from w have "fold_err make_neighbor (ridges w3) w3 = Inr w" by (simp add: make_neighbors_def)
  from make_neighbors_fold[OF this] have s: "patch_shape w = patch_shape w3" by simp
  have ps: "patches w = patches w3" using patch_shape_parts(1)[OF s] .
  have "\<forall>p\<in>set (patches w). from_region ?S w p"
    using p3 by (simp add: ps from_region_shape[OF s])
  moreover have "\<forall>ir\<in>?S. bounded_region (snd ir) \<longrightarrow> fst ir \<in> set (patches w)"
    using a3 by (simp add: ps)
  ultimately show ?thesis
    by (simp add: from_region_def patch_closed_def bounded_region_def)
qed

lemma thin_world:
  "\<exists>w. World_init thin (0, 1) (0, 1) = Inr w \<and> patches w = [0] \<and>
       p_vertices (pheap w 0) = [0, 1] \<and> centroid (pheap w 0) = (1 / 2, 1 / 4)"
  by (simp add: thin_def World_init_def make_vertices_def make_vertex_def make_ridges_def
      make_ridge_def make_patches_def make_patch_def make_neighbors_def make_neighbor_def
      empty_world_def Vertex_init_def Ridge_init_def Patch_init_def add_neighbor_def
      set_add_def find_centroid_def add_patch_to_vertex_def py_index_def Let_def)

text \<open>The theorem on the example tessellation: the patch 1 is a triangle.\<close>

theorem World_init_patches_witness:
  "World_init tiny (0, 1) (0, 1) = Inr tiny_world \<and> patches tiny_world = [1, 2] \<and>
   length (p_vertices (pheap tiny_world 1)) = 3 \<and> centroid (pheap tiny_world 1) = (5 / 12, 5 / 12) \<and>
   mean_point (map (\<lambda>v. v_coords (vheap tiny_world v)) (p_vertices (pheap tiny_world 1))) =
     (5 / 12, 5 / 12)"
  using World_init_patches[OF tiny_world_built]
  by (simp add: tiny_world_built tiny_world_lists tiny_world_patches)

text \<open>
  Claim C9 as stated fails: a tessellation whose only region has two vertices and is not
  flagged unbounded is built without an error, and the world has a patch of two vertices.
\<close>

theorem World_init_accepts_two_vertex_region:
  "(case World_init thin (0, 1) (0, 1) of
      Inr w \<Rightarrow> patches w = [0] \<and> p_vertices (pheap w 0) = [0, 1]
    | Inl e \<Rightarrow> False)"
  using thin_world by auto

subsection \<open>The operations keep the adjacency of vertices and ridges\<close>

lemma fold_frame:
  assumes "\<And>s x. P (f x s) = P s"
  shows "P (fold f xs s) = P s"
  by (induction xs arbitrary: s) (simp_all add: assms)

lemma fold_err_frame:
  assumes "\<And>s x s'. f s x = Inr s' \<Longrightarrow> P s' = P s"
  shows "fold_err f xs s = Inr s' \<Longrightarrow> P s' = P s"
proof (induction xs arbitrary: s)
  case Nil
  then show ?case by simp
next
  case (Cons x xs)
  from Cons.prems obtain s1 where s1: "f s x = Inr s1" and r: "fold_err f xs s1 = Inr s'"
    by (auto split: sum.splits)
  from Cons.IH[OF r] assms[OF s1] show ?case by simp
qed

lemma topology_set_height: "topology (set_height v h w) = topology w"
  by (simp add: topology_def set_height_def fun_eq_iff)

lemma topology_set_heights: "topology (set_heights w h) = topology w"
  unfolding set_heights_def by (rule fold_frame) (rule topology_set_height)

lemma topology_normalize_heights:
  assumes "normalize_heights w = Inr w'"
  shows "topology w' = topology w"
proof -
  from assms obtain mn mx where "fold_err (normalize_vertex mn mx) (vertices w) w = Inr w'"
    by (auto simp: normalize_heights_def Let_def split: sum.splits)
  then show ?thesis
    by (rule fold_err_frame[rotated])
      (auto simp: normalize_vertex_def topology_set_height split: if_splits)
qed

lemma topology_add_slope:
  assumes "add_slope w magnitude slope nz drawn = Inr w'"
  shows "topology w' = topology w"
proof -
  have f: "topology (fold (\<lambda>v w'. slope_vertex s w' v) vs w) = topology w" for s vs
    by (rule fold_frame) (simp add: slope_vertex_def topology_set_height)
  from assms show ?thesis
    by (auto simp: add_slope_def Let_def f split: sum.splits if_splits
        dest!: topology_normalize_heights)
qed

lemma topology_add_hill:
  assumes "add_hill w hill r nz = Inr w'"
  shows "topology w' = topology w"
proof -
  from assms obtain w1 where w1: "fold_err (hill_vertex hill r) (vertices w) w = Inr w1"
    and n: "(if nz then normalize_heights w1 else Inr w1) = Inr w'"
    by (auto simp: add_hill_def split: sum.splits)
  from w1 have "topology w1 = topology w"
    by (rule fold_err_frame[rotated])
      (auto simp: hill_vertex_def Let_def topology_set_height split: if_splits)
  with n topology_normalize_heights[of w1 w'] show ?thesis by (cases nz) auto
qed

lemma topology_make_rivers:
  assumes "make_rivers w = Inr w'"
  shows "topology w' = topology w"
proof -
  from assms have
    "fold_err river_step (vertices_by_height (reset_rivers w)) (reset_rivers w) = Inr w'"
    by (simp add: make_rivers_def Let_def)
  then have "topology w' = topology (reset_rivers w)"
    by (rule fold_err_frame[rotated]) (simp add: river_step_frame)
  then show ?thesis by (simp add: reset_rivers_frame)
qed

lemma topology_erode_heights:
  assumes "erode_heights w max_total drop_factor = Inr w'"
  shows "topology w' = topology w"
proof -
  from assms have "fold_err (erode_ridge max_total) (ridges w) w = Inr w'"
    by (simp add: erode_heights_def)
  then show ?thesis
  proof (rule fold_err_frame[rotated])
    fix s x s'
    assume "erode_ridge max_total s x = Inr s'"
    from erode_ridge_Inr[OF this] show "topology s' = topology s"
      by (auto simp: topology_set_height)
  qed
qed

lemma topology_set_sea_level:
  "set_sea_level percentile w sl = Inr w' \<Longrightarrow> topology w' = topology w"
  by (auto simp: set_sea_level_def Let_def topology_def split: if_splits sum.splits)

lemma topology_patch_height:
  "patch_height w p = Inr (h, w') \<Longrightarrow>
   topology w' = topology w \<and> sea_level w' = sea_level w"
  by (auto simp: patch_height_def topology_def split: option.splits sum.splits)

lemma topology_land_filter:
  "land_filter ps w = Inr (ls, w') \<Longrightarrow> topology w' = topology w"
proof (induction ps arbitrary: w ls)
  case Nil
  then show ?case by simp
next
  case (Cons p ps)
  from Cons.prems obtain h w1 ls1 where h: "patch_height w p = Inr (h, w1)"
    and r: "land_filter ps w1 = Inr (ls1, w')"
    by (auto split: sum.splits prod.splits)
  from Cons.IH[OF r] topology_patch_height[OF h] show ?case by simp
qed

lemma topology_land_patches:
  assumes "land_patches w = Inr (ls, w')"
  shows "topology w' = topology w"
proof (cases "length (cached_land_patches w) = 0")
  case False
  with assms show ?thesis by (simp add: land_patches_def)
next
  case True
  with assms obtain w1 where "land_filter (patches w) w = Inr (ls, w1)"
    and w': "w' = w1\<lparr>cached_land_patches := ls\<rparr>"
    by (auto simp: land_patches_def split: sum.splits prod.splits)
  from topology_land_filter[OF this(1)] show ?thesis by (simp add: w' topology_def)
qed

lemma topology_clean_coastline: "topology (clean_coastline w epsilon) = topology w"
  unfolding clean_coastline_def
  by (rule fold_frame) (simp add: clean_vertex_def Let_def topology_set_height)

lemma topology_network_edge:
  assumes "network_edge pt gw rp = Inr gw'"
  shows "topology (snd gw') = topology (snd gw)"
proof -
  obtain g w where gw: "gw = (g, w)" by (cases gw)
  from assms obtain hp w1 where h1: "patch_height w (snd rp) = Inr (hp, w1)"
    by (auto simp: network_edge_def gw split: sum.splits prod.splits)
  show ?thesis
  proof (cases "hp < sea_level w1")
    case True
    with assms h1 topology_patch_height[OF h1] show ?thesis
      by (auto simp: network_edge_def gw)
  next
    case False
    with assms h1 obtain hpt w2 where h2: "patch_height w1 pt = Inr (hpt, w2)"
      and e: "snd gw' = w2"
      by (auto simp: network_edge_def gw Let_def split: sum.splits prod.splits)
    from topology_patch_height[OF h1] topology_patch_height[OF h2] e show ?thesis
      by (simp add: gw)
  qed
qed

lemma topology_network_patch:
  assumes "network_patch gw pt = Inr gw'"
  shows "topology (snd gw') = topology (snd gw)"
proof -
  from assms have "fold_err (network_edge pt) (p_neighbors (pheap (snd gw) pt)) gw = Inr gw'"
    by (simp add: network_patch_def)
  then show ?thesis
    by (rule fold_err_frame[where P = "\<lambda>gw. topology (snd gw)", rotated])
      (rule topology_network_edge)
qed

lemma topology_patch_network:
  assumes "patch_network w = Inr (g, w')"
  shows "topology w' = topology w"
proof (cases "cached_patch_network w")
  case (Some g0)
  with assms show ?thesis by (simp add: patch_network_def)
next
  case None
  with assms obtain ls w1 w2 where lp: "land_patches w = Inr (ls, w1)"
    and f: "fold_err network_patch ls (\<lparr>nodes = [], edges = []\<rparr>, w1) = Inr (g, w2)"
    and w': "w' = w2\<lparr>cached_patch_network := Some g\<rparr>"
    by (auto simp: patch_network_def split: sum.splits prod.splits)
  from f have "topology (snd (g, w2)) = topology (snd (\<lparr>nodes = [], edges = []\<rparr>, w1))"
    by (rule fold_err_frame[where P = "\<lambda>gw. topology (snd gw)", rotated])
      (rule topology_network_patch)
  with topology_land_patches[OF lp] show ?thesis by (simp add: w' topology_def)
qed

lemma mesh_symmetric_frame:
  assumes "topology w' = topology w"
  shows "mesh_symmetric w' = mesh_symmetric w"
  by (simp add: mesh_symmetric_def ridge_symmetric_def topology_parts[OF assms])

subsection \<open>Construction: the ridges and the symmetry of the mesh\<close>

lemma add_neighbor_fields:
  "vertices (add_neighbor a b i w) = vertices w" "ridges (add_neighbor a b i w) = ridges w"
  "rheap (add_neighbor a b i w) = rheap w"
  "v_name (vheap (add_neighbor a b i w) v) = v_name (vheap w v)"
  "set (v_neighbors (vheap (add_neighbor a b i w) v)) =
     set (v_neighbors (vheap w v)) \<union> (if v = a then {b} else {})"
  "v_ridges (vheap (add_neighbor a b i w) v) key =
     (if v = a \<and> key = v_name (vheap w b) then Some i else v_ridges (vheap w v) key)"
  by (auto simp: add_neighbor_def set_add_def)

lemma Ridge_init_fields:
  "vertices (Ridge_init i e1 e2 w) = vertices w" "ridges (Ridge_init i e1 e2 w) = ridges w"
  "rheap (Ridge_init i e1 e2 w) q =
     (if q = i then \<lparr>r_name = i, end_1 = e1, end_2 = e2, r_patches = [], r_flux = 0\<rparr>
      else rheap w q)"
  "v_name (vheap (Ridge_init i e1 e2 w) v) = v_name (vheap w v)"
  "set (v_neighbors (vheap (Ridge_init i e1 e2 w) v)) =
     set (v_neighbors (vheap w v)) \<union> (if v = e1 then {e2} else {}) \<union>
       (if v = e2 then {e1} else {})"
  "v_ridges (vheap (Ridge_init i e1 e2 w) v) key =
     (if v = e2 \<and> key = v_name (vheap w e1) then Some i
      else if v = e1 \<and> key = v_name (vheap w e2) then Some i
      else v_ridges (vheap w v) key)"
  by (auto simp: Ridge_init_def Let_def add_neighbor_fields)

lemma make_ridge_skipped:
  "\<not> bounded_ridge (k, j) \<Longrightarrow> make_ridge w (i, (k, j)) = Inr w"
  by (simp add: make_ridge_def bounded_ridge_def)

lemma make_ridge_bounded:
  assumes "vertices w = [0..<n]" "bounded_ridge (k, j)" "-1 \<le> k" "-1 \<le> j"
    "make_ridge w (i, (k, j)) = Inr w'"
  shows "nat k < n \<and> nat j < n \<and>
         w' = (Ridge_init i (nat k) (nat j) w)\<lparr>ridges := ridges w @ [i]\<rparr>"
proof -
  from assms(2-4) have k: "0 \<le> k" and j: "0 \<le> j" by (auto simp: bounded_ridge_def)
  have pk: "py_index [0..<n] k = (if k < int n then Inr (nat k) else Inl IndexError)"
    using k by (auto simp: py_index_def)
  have pj: "py_index [0..<n] j = (if j < int n then Inr (nat j) else Inl IndexError)"
    using j by (auto simp: py_index_def)
  from assms(5) assms(2) show ?thesis
    using k j
    by (auto simp: make_ridge_def bounded_ridge_def assms(1) pk pj split: if_splits)
qed

lemma ridge_symmetric_new:
  assumes "\<forall>v<n. v_name (vheap w v) = v" "e1 < n" "e2 < n"
  shows "ridge_symmetric ((Ridge_init i e1 e2 w)\<lparr>ridges := rs\<rparr>) i"
  using assms by (simp add: ridge_symmetric_def Ridge_init_fields)

lemma ridge_symmetric_old:
  assumes "\<forall>v<n. v_name (vheap w v) = v" "e1 < n" "e2 < n" "r \<noteq> i"
    "end_1 (rheap w r) < n" "end_2 (rheap w r) < n"
    "{end_1 (rheap w r), end_2 (rheap w r)} \<noteq> {e1, e2}" "ridge_symmetric w r"
  shows "ridge_symmetric ((Ridge_init i e1 e2 w)\<lparr>ridges := rs\<rparr>) r"
  using assms by (auto simp: ridge_symmetric_def Ridge_init_fields doubleton_eq_iff)

lemma ridges_inv_step:
  assumes "ridges_inv n (ip # pending) w" "pending_ok (ip # pending)"
    "make_ridge w ip = Inr w'"
  shows "ridges_inv n pending w'"
proof -
  obtain i k j where ip: "ip = (i, (k, j))" by (cases ip) auto
  show ?thesis
  proof (cases "bounded_ridge (k, j)")
    case False
    with assms(3) have "w' = w" by (simp add: ip make_ridge_skipped)
    with assms(1) False show ?thesis by (simp add: ridges_inv_def ip)
  next
    case True
    from assms(1) have vs: "vertices w = [0..<n]" and nm: "\<forall>v<n. v_name (vheap w v) = v"
      by (simp_all add: ridges_inv_def)
    from assms(2) have ge: "-1 \<le> k" "-1 \<le> j" by (simp_all add: pending_ok_def ip)
    from make_ridge_bounded[OF vs True ge] assms(3)
    have e1: "nat k < n" and e2: "nat j < n"
      and w': "w' = (Ridge_init i (nat k) (nat j) w)\<lparr>ridges := ridges w @ [i]\<rparr>"
      by (simp_all add: ip)
    have en: "ends_of (k, j) = {nat k, nat j}" by (simp add: ends_of_def)
    from assms(2) True have fresh_i: "i \<notin> set (map fst pending)"
      and fresh_e: "{nat k, nat j} \<notin> set (map ends_of (filter bounded_ridge (map snd pending)))"
      by (simp_all add: pending_ok_def ip en)
    have new: "ridge_symmetric w' i"
      unfolding w' by (rule ridge_symmetric_new[OF nm e1 e2])
    have old: "end_1 (rheap w' r) < n \<and> end_2 (rheap w' r) < n \<and> ridge_symmetric w' r \<and>
         r \<notin> set (map fst pending) \<and>
         {end_1 (rheap w' r), end_2 (rheap w' r)} \<notin>
           set (map ends_of (filter bounded_ridge (map snd pending)))"
      if r: "r \<in> set (ridges w)" for r
    proof -
      from assms(1) r have a: "end_1 (rheap w r) < n" "end_2 (rheap w r) < n"
        "ridge_symmetric w r" "r \<notin> set (map fst (ip # pending))"
        "{end_1 (rheap w r), end_2 (rheap w r)} \<notin>
           set (map ends_of (filter bounded_ridge (map snd (ip # pending))))"
        by (simp_all add: ridges_inv_def)
      from a(4) have ri: "r \<noteq> i" and rp: "r \<notin> set (map fst pending)" by (simp_all add: ip)
      from a(5) True have ne: "{end_1 (rheap w r), end_2 (rheap w r)} \<noteq> {nat k, nat j}"
        and ep: "{end_1 (rheap w r), end_2 (rheap w r)} \<notin>
           set (map ends_of (filter bounded_ridge (map snd pending)))"
        by (simp_all add: ip en)
      have rh: "rheap w' r = rheap w r" using ri by (simp add: w' Ridge_init_fields)
      have "ridge_symmetric w' r"
        unfolding w' by (rule ridge_symmetric_old[OF nm e1 e2 ri a(1,2) ne a(3)])
      with a(1,2) rp ep show ?thesis by (simp add: rh)
    qed
    have ri: "rheap w' i = \<lparr>r_name = i, end_1 = nat k, end_2 = nat j, r_patches = [], r_flux = 0\<rparr>"
      by (simp add: w' Ridge_init_fields)
    have "vertices w' = [0..<n]" by (simp add: w' Ridge_init_fields vs)
    moreover have "\<forall>v<n. v_name (vheap w' v) = v" using nm by (simp add: w' Ridge_init_fields)
    moreover have "\<forall>r\<in>set (ridges w').
         end_1 (rheap w' r) < n \<and> end_2 (rheap w' r) < n \<and> ridge_symmetric w' r \<and>
         r \<notin> set (map fst pending) \<and>
         {end_1 (rheap w' r), end_2 (rheap w' r)} \<notin>
           set (map ends_of (filter bounded_ridge (map snd pending)))"
    proof
      fix r assume "r \<in> set (ridges w')"
      then have "r \<in> set (ridges w) \<or> r = i" by (auto simp: w')
      then show "end_1 (rheap w' r) < n \<and> end_2 (rheap w' r) < n \<and> ridge_symmetric w' r \<and>
         r \<notin> set (map fst pending) \<and>
         {end_1 (rheap w' r), end_2 (rheap w' r)} \<notin>
           set (map ends_of (filter bounded_ridge (map snd pending)))"
      proof
        assume "r \<in> set (ridges w)" then show ?thesis by (rule old)
      next
        assume "r = i"
        with new e1 e2 fresh_i fresh_e show ?thesis by (simp add: ri)
      qed
    qed
    ultimately show ?thesis by (simp add: ridges_inv_def)
  qed
qed

lemma pending_ok_tl: "pending_ok (ip # pending) \<Longrightarrow> pending_ok pending"
  by (auto simp: pending_ok_def split: if_splits)

lemma ridges_inv_fold:
  assumes "ridges_inv n pending w" "pending_ok pending"
    "fold_err make_ridge pending w = Inr w'"
  shows "ridges_inv n [] w'"
  using assms
proof (induction pending arbitrary: w)
  case Nil
  then show ?case by simp
next
  case (Cons ip pending)
  from Cons.prems(3) obtain w1 where w1: "make_ridge w ip = Inr w1"
    and r: "fold_err make_ridge pending w1 = Inr w'"
    by (auto split: sum.splits)
  from ridges_inv_step[OF Cons.prems(1,2) w1] pending_ok_tl[OF Cons.prems(2)] r
  show ?case by (rule Cons.IH)
qed

lemma make_vertices_lists:
  "vertices (fold (\<lambda>ip w'. make_vertex w' ip) ips w) = vertices w @ map fst ips \<and>
   ridges (fold (\<lambda>ip w'. make_vertex w' ip) ips w) = ridges w"
  by (induction ips arbitrary: w) (simp_all add: make_vertex_def)

lemma make_vertices_keep:
  "v < k \<Longrightarrow>
   v_name (vheap (fold (\<lambda>ip w'. make_vertex w' ip) (enumerate k ps) w) v) =
     v_name (vheap w v)"
proof (induction ps arbitrary: k w)
  case Nil
  then show ?case by simp
next
  case (Cons p ps)
  from Cons.IH[of "Suc k" "make_vertex w (k, p)"] Cons.prems show ?case
    by (simp add: make_vertex_def)
qed

lemma make_vertices_names:
  "m \<le> v \<Longrightarrow> v < m + length pts \<Longrightarrow>
   v_name (vheap (fold (\<lambda>ip w'. make_vertex w' ip) (enumerate m pts) w) v) = v"
proof (induction pts arbitrary: m w)
  case Nil
  then show ?case by simp
next
  case (Cons pt pts)
  show ?case
  proof (cases "v = m")
    case True
    have "v_name (vheap (make_vertex w (m, pt)) m) = m"
      by (simp add: make_vertex_def Vertex_init_def)
    with make_vertices_keep[of m "Suc m" pts "make_vertex w (m, pt)"] True show ?thesis
      by simp
  next
    case False
    with Cons.prems have "Suc m \<le> v" "v < Suc m + length pts" by simp_all
    from Cons.IH[OF this, of "make_vertex w (m, pt)"] show ?thesis by simp
  qed
qed

lemma make_vertices_fold:
  "vertices (fold (\<lambda>ip w'. make_vertex w' ip) (enumerate 0 pts) w) =
     vertices w @ [0..<length pts] \<and>
   ridges (fold (\<lambda>ip w'. make_vertex w' ip) (enumerate 0 pts) w) = ridges w \<and>
   (\<forall>v<length pts.
      v_name (vheap (fold (\<lambda>ip w'. make_vertex w' ip) (enumerate 0 pts) w) v) = v)"
  using make_vertices_lists[of "enumerate 0 pts" w] make_vertices_names[of 0 _ pts w]
  by simp

lemma make_vertices_inv:
  assumes "pending_ok pending"
  shows "ridges_inv (length (vor_vertices t)) pending (make_vertices t (empty_world xl yl))"
  using make_vertices_fold[of "vor_vertices t" "empty_world xl yl"]
  by (simp add: ridges_inv_def make_vertices_def) (simp add: empty_world_def)

lemma ridges_distinct_pending:
  "ridges_distinct t \<Longrightarrow> pending_ok (enumerate 0 (ridge_vertices t))"
proof -
  assume a: "ridges_distinct t"
  have "snd ip \<in> set (ridge_vertices t)" if "ip \<in> set (enumerate 0 (ridge_vertices t))" for ip
  proof -
    from that have "snd ip \<in> snd ` set (enumerate 0 (ridge_vertices t))" by (rule imageI)
    then have "snd ip \<in> set (map snd (enumerate 0 (ridge_vertices t)))"
      by (simp only: set_map)
    then show ?thesis by (simp only: map_snd_enumerate)
  qed
  with a show ?thesis by (simp add: ridges_distinct_def pending_ok_def)
qed

lemma World_init_symmetric:
  assumes "ridges_distinct t" "World_init t xl yl = Inr w"
  shows "mesh_symmetric w"
proof -
  from assms(2) obtain w2 w3 where
    w2: "make_ridges t (make_vertices t (empty_world xl yl)) = Inr w2"
    and w3: "make_patches t w2 = Inr w3" and w: "make_neighbors w3 = Inr w"
    by (auto simp: World_init_def split: sum.splits)
  note p = ridges_distinct_pending[OF assms(1)]
  from w2 have "fold_err make_ridge (enumerate 0 (ridge_vertices t))
      (make_vertices t (empty_world xl yl)) = Inr w2"
    by (simp add: make_ridges_def)
  from ridges_inv_fold[OF make_vertices_inv[OF p] p this]
  have s2: "mesh_symmetric w2" by (simp add: ridges_inv_def mesh_symmetric_def)
  have "patches w2 = []"
    using make_ridges_patches[OF w2] by (simp add: make_vertices_patches empty_world_def)
  then have i: "\<forall>p\<in>set (patches w2). from_region (set (enumerate 0 (regions t))) w2 p"
    by simp
  from w3 have "fold_err make_patch (enumerate 0 (regions t)) w2 = Inr w3"
    by (simp add: make_patches_def)
  from make_patches_fold[OF i _ this] have t3: "topology w3 = topology w2" by simp
  from w have "fold_err make_neighbor (ridges w3) w3 = Inr w" by (simp add: make_neighbors_def)
  from make_neighbors_fold[OF this] have t4: "topology w = topology w3" by simp
  from s2 show ?thesis
    by (simp add: mesh_symmetric_frame[OF t4] mesh_symmetric_frame[OF t3])
qed

text \<open>
  Claim C8. For a tessellation in which no two bounded ridges join the same pair of
  vertices (and no index is below \<open>-1\<close>), in the world that \<^verbatim>\<open>World.__init__\<close> returns
  and in every world reached from it by the operations of the class (\<^verbatim>\<open>set_heights\<close>,
  \<^verbatim>\<open>normalize_heights\<close>, \<^verbatim>\<open>add_slope\<close>, \<^verbatim>\<open>add_hill\<close>, \<^verbatim>\<open>reset_rivers\<close>,
  \<^verbatim>\<open>make_rivers\<close>, \<^verbatim>\<open>erode_heights\<close>, \<^verbatim>\<open>set_sea_level\<close>, \<^verbatim>\<open>land_patches\<close>,
  \<^verbatim>\<open>clean_coastline\<close>, \<^verbatim>\<open>patch_network\<close>), every ridge \<open>r\<close> with ends \<open>A\<close> and \<open>B\<close>
  has \<open>A\<close> among the neighbours of \<open>B\<close>, \<open>B\<close> among the neighbours of \<open>A\<close>, and
  \<open>A.ridges[B.name] = r = B.ridges[A.name]\<close>.
\<close>

theorem mesh_symmetry_invariant:
  assumes "ridges_distinct t" "reachable t w"
  shows "\<forall>r\<in>set (ridges w).
           end_1 (rheap w r) \<in> set (v_neighbors (vheap w (end_2 (rheap w r)))) \<and>
           end_2 (rheap w r) \<in> set (v_neighbors (vheap w (end_1 (rheap w r)))) \<and>
           v_ridges (vheap w (end_1 (rheap w r))) (v_name (vheap w (end_2 (rheap w r)))) = Some r \<and>
           v_ridges (vheap w (end_2 (rheap w r))) (v_name (vheap w (end_1 (rheap w r)))) = Some r"
proof -
  from assms(2) have "mesh_symmetric w"
  proof (induction rule: reachable.induct)
    case (r_init xl yl w)
    with assms(1) show ?case by (simp add: World_init_symmetric)
  next
    case (r_set_heights w h)
    then show ?case by (simp add: mesh_symmetric_frame[OF topology_set_heights])
  next
    case (r_normalize_heights w w')
    then show ?case by (simp add: mesh_symmetric_frame[OF topology_normalize_heights])
  next
    case (r_add_slope w magnitude slope nz drawn w')
    then show ?case by (simp add: mesh_symmetric_frame[OF topology_add_slope])
  next
    case (r_add_hill w hill r nz w')
    then show ?case by (simp add: mesh_symmetric_frame[OF topology_add_hill])
  next
    case (r_reset_rivers w)
    then show ?case by (simp add: mesh_symmetric_frame[OF reset_rivers_frame(1)])
  next
    case (r_make_rivers w w')
    then show ?case by (simp add: mesh_symmetric_frame[OF topology_make_rivers])
  next
    case (r_erode_heights w max_total drop_factor w')
    then show ?case by (simp add: mesh_symmetric_frame[OF topology_erode_heights])
  next
    case (r_set_sea_level w percentile sl w')
    then show ?case by (simp add: mesh_symmetric_frame[OF topology_set_sea_level])
  next
    case (r_land_patches w ls w')
    then show ?case by (simp add: mesh_symmetric_frame[OF topology_land_patches])
  next
    case (r_clean_coastline w epsilon)
    then show ?case by (simp add: mesh_symmetric_frame[OF topology_clean_coastline])
  next
    case (r_patch_network w g w')
    then show ?case by (simp add: mesh_symmetric_frame[OF topology_patch_network])
  qed
  then show ?thesis by (simp add: mesh_symmetric_def ridge_symmetric_def)
qed

lemma tiny_ridges_distinct: "ridges_distinct tiny"
  by (simp add: ridges_distinct_def tiny_def bounded_ridge_def ends_of_def doubleton_eq_iff)

text \<open>
  The theorem on the example world after \<^verbatim>\<open>add_slope\<close>, at the ridge 3 between the
  vertices 1 and 3.
\<close>

theorem mesh_symmetry_invariant_witness:
  "ridges_distinct tiny \<and> reachable tiny slope_world \<and>
   ridges slope_world = [0, 1, 2, 3, 4] \<and>
   end_1 (rheap slope_world 3) = 1 \<and> end_2 (rheap slope_world 3) = 3 \<and>
   1 \<in> set (v_neighbors (vheap slope_world 3)) \<and>
   3 \<in> set (v_neighbors (vheap slope_world 1)) \<and>
   v_ridges (vheap slope_world 1) 3 = Some 3 \<and> v_ridges (vheap slope_world 3) 1 = Some 3"
proof -
  have r: "reachable tiny slope_world"
    using r_add_slope[OF r_init[OF tiny_world_built] slope_world_built] .
  from mesh_symmetry_invariant[OF tiny_ridges_distinct r]
  have "end_1 (rheap slope_world 3) \<in> set (v_neighbors (vheap slope_world (end_2 (rheap slope_world 3)))) \<and>
        end_2 (rheap slope_world 3) \<in> set (v_neighbors (vheap slope_world (end_1 (rheap slope_world 3)))) \<and>
        v_ridges (vheap slope_world (end_1 (rheap slope_world 3)))
          (v_name (vheap slope_world (end_2 (rheap slope_world 3)))) = Some 3 \<and>
        v_ridges (vheap slope_world (end_2 (rheap slope_world 3)))
          (v_name (vheap slope_world (end_1 (rheap slope_world 3)))) = Some 3"
    by (simp add: slope_world_lists)
  then show ?thesis
    using tiny_ridges_distinct r
    by (simp add: slope_world_lists tiny_world_ridges slope_world_vertices tiny_world_vertices)
qed

end
